theory Spec2Isabelle
  imports Main "HOL-Library.Word" "HOL-Library.List_Lexorder" "HOL-Library.Char_ord"
    "HOL-Library.AList"
begin

section \<open>Bytes, Go integers and strconv\<close>

text \<open>
  A Go \<^verbatim>\<open>string\<close> and a \<^verbatim>\<open>[]byte\<close> are byte sequences; both are modelled as
  \<^typ>\<open>string\<close>, whose characters are bytes. Go's \<^verbatim>\<open>int\<close> is the 64-bit signed
  integer of the platforms the chaincode runs on; it is a \<^typ>\<open>64 word\<close>, on which
  \<open>+\<close> and \<open>-\<close> wrap as Go's do, and \<open>sint\<close> reads the signed value.
\<close>

type_synonym bytes = string
type_synonym go_int = \<open>64 word\<close>

definition byte :: \<open>char \<Rightarrow> int\<close> where
  \<open>byte c = of_char c\<close>

definition bsl :: char where \<open>bsl = CHR 0x5C\<close>
definition dq :: char where \<open>dq = CHR 0x22\<close>

definition is_digit :: \<open>char \<Rightarrow> bool\<close> where
  \<open>is_digit c = (48 \<le> byte c \<and> byte c \<le> 57)\<close>

definition digit_val :: \<open>char \<Rightarrow> int\<close> where
  \<open>digit_val c = byte c - 48\<close>

definition digit_char :: \<open>int \<Rightarrow> char\<close> where
  \<open>digit_char d = ''0123456789'' ! nat d\<close>

datatype conv_err = ErrSyntax | ErrRange

definition maxUint64 :: int where \<open>maxUint64 = 18446744073709551615\<close>
definition cutoff64 :: int where \<open>cutoff64 = 9223372036854775808\<close>

text \<open>
  \<^verbatim>\<open>strconv.ParseUint(s, 10, 64)\<close>: the loop over the bytes of \<open>s\<close>. A byte that is
  not a decimal digit is a syntax error with value 0; an overflow stops the loop at once
  with the largest value and a range error.
\<close>

fun parse_uint_loop :: \<open>int \<Rightarrow> string \<Rightarrow> int \<times> conv_err option\<close> where
  \<open>parse_uint_loop n [] = (n, None)\<close>
| \<open>parse_uint_loop n (c # cs) =
     (if \<not> is_digit c then (0, Some ErrSyntax)
      else if n \<ge> maxUint64 div 10 + 1 then (maxUint64, Some ErrRange)
      else (let n1 = n * 10 + digit_val c in
            if n1 > maxUint64 then (maxUint64, Some ErrRange)
            else parse_uint_loop n1 cs))\<close>

definition ParseUint :: \<open>string \<Rightarrow> int \<times> conv_err option\<close> where
  \<open>ParseUint s = (if s = [] then (0, Some ErrSyntax) else parse_uint_loop 0 s)\<close>

text \<open>
  \<^verbatim>\<open>strconv.ParseInt(s, 10, 64)\<close>: an optional sign, then \<open>ParseUint\<close>; a syntax
  error gives 0, a value out of range is clamped to the nearest bound.
\<close>

definition ParseInt :: \<open>string \<Rightarrow> go_int \<times> conv_err option\<close> where
  \<open>ParseInt s =
     (if s = [] then (0, Some ErrSyntax)
      else
        (let neg = (hd s = CHR ''-'');
             s1 = (if hd s = CHR ''+'' \<or> hd s = CHR ''-'' then tl s else s);
             (un, err) = ParseUint s1
         in if err = Some ErrSyntax then (0, err)
            else if \<not> neg \<and> un \<ge> cutoff64 then (word_of_int (cutoff64 - 1), Some ErrRange)
            else if neg \<and> un > cutoff64 then (- word_of_int cutoff64, Some ErrRange)
            else (if neg then - word_of_int un else word_of_int un, None)))\<close>

text \<open>
  \<^verbatim>\<open>strconv.Atoi\<close> is \<^verbatim>\<open>ParseInt(s, 10, 0)\<close> converted to \<^verbatim>\<open>int\<close>; its fast path for
  short inputs computes the same value and error.
\<close>

definition Atoi :: \<open>string \<Rightarrow> go_int \<times> conv_err option\<close> where
  \<open>Atoi s = ParseInt s\<close>

function digits :: \<open>int \<Rightarrow> string\<close> where
  \<open>digits n = (if n < 10 then [digit_char n] else digits (n div 10) @ [digit_char (n mod 10)])\<close>
  by pat_completeness auto
termination
  by (relation \<open>measure nat\<close>) auto

declare digits.simps [simp del]

text \<open>\<^verbatim>\<open>strconv.Itoa\<close>: the decimal digits of the signed value, with \<open>-\<close> when negative.\<close>

definition Itoa :: \<open>go_int \<Rightarrow> string\<close> where
  \<open>Itoa i = (if sint i < 0 then CHR ''-'' # digits (- sint i) else digits (sint i))\<close>

section \<open>UTF-8\<close>

text \<open>
  \<^verbatim>\<open>utf8.DecodeRuneInString\<close>: the code point at the head of the string and the
  number of bytes it takes; an ill-formed sequence is \<open>(0xFFFD, 1)\<close>. The second byte
  of a three- or four-byte sequence has the narrower range that excludes overlong
  encodings, surrogates and code points above U+10FFFF.
\<close>

definition cont :: \<open>int \<Rightarrow> bool\<close> where
  \<open>cont b = (128 \<le> b \<and> b \<le> 191)\<close>

definition second_lo :: \<open>int \<Rightarrow> int\<close> where
  \<open>second_lo b0 = (if b0 = 224 then 160 else if b0 = 240 then 144 else 128)\<close>

definition second_hi :: \<open>int \<Rightarrow> int\<close> where
  \<open>second_hi b0 = (if b0 = 237 then 159 else if b0 = 244 then 143 else 191)\<close>

definition RuneError :: int where \<open>RuneError = 65533\<close>

definition decode_rune :: \<open>string \<Rightarrow> int \<times> nat\<close> where
  \<open>decode_rune s =
     (case map byte s of
        [] \<Rightarrow> (RuneError, 0)
      | b0 # bs \<Rightarrow>
          if b0 < 128 then (b0, 1)
          else if 194 \<le> b0 \<and> b0 \<le> 223 then
            (case bs of
               b1 # _ \<Rightarrow> if cont b1 then ((b0 - 192) * 64 + (b1 - 128), 2) else (RuneError, 1)
             | _ \<Rightarrow> (RuneError, 1))
          else if 224 \<le> b0 \<and> b0 \<le> 239 then
            (case bs of
               b1 # b2 # _ \<Rightarrow>
                 if second_lo b0 \<le> b1 \<and> b1 \<le> second_hi b0 \<and> cont b2
                 then ((b0 - 224) * 4096 + (b1 - 128) * 64 + (b2 - 128), 3)
                 else (RuneError, 1)
             | _ \<Rightarrow> (RuneError, 1))
          else if 240 \<le> b0 \<and> b0 \<le> 244 then
            (case bs of
               b1 # b2 # b3 # _ \<Rightarrow>
                 if second_lo b0 \<le> b1 \<and> b1 \<le> second_hi b0 \<and> cont b2 \<and> cont b3
                 then ((b0 - 240) * 262144 + (b1 - 128) * 4096 + (b2 - 128) * 64 + (b3 - 128), 4)
                 else (RuneError, 1)
             | _ \<Rightarrow> (RuneError, 1))
          else (RuneError, 1))\<close>

text \<open>\<^verbatim>\<open>utf8.EncodeRune\<close>; a surrogate or a value above U+10FFFF is written as U+FFFD.\<close>

definition encode_rune :: \<open>int \<Rightarrow> string\<close> where
  \<open>encode_rune r0 =
     (let r = (if (55296 \<le> r0 \<and> r0 < 57344) \<or> r0 > 1114111 then RuneError else r0) in
      if r < 128 then [char_of r]
      else if r < 2048 then [char_of (192 + r div 64), char_of (128 + r mod 64)]
      else if r < 65536 then
        [char_of (224 + r div 4096), char_of (128 + r div 64 mod 64), char_of (128 + r mod 64)]
      else
        [char_of (240 + r div 262144), char_of (128 + r div 4096 mod 64),
         char_of (128 + r div 64 mod 64), char_of (128 + r mod 64)])\<close>

text \<open>\<^verbatim>\<open>utf8.ValidString\<close>.\<close>

fun valid_utf8 :: \<open>string \<Rightarrow> bool\<close> where
  \<open>valid_utf8 [] = True\<close>
| \<open>valid_utf8 (c # cs) =
     (if byte c < 128 then valid_utf8 cs
      else (case decode_rune (c # cs) of
              (r, n) \<Rightarrow> n \<noteq> 1 \<and> valid_utf8 (drop (n - 1) cs)))\<close>

section \<open>encoding/json\<close>

subsection \<open>Writing a string\<close>

text \<open>
  The encoder writes a Go string between double quotes. An ASCII byte is written as
  it is unless it is a control character, a double quote, a backslash, \<open><\<close>, \<open>>\<close> or \<open>&\<close>
  (\<^verbatim>\<open>htmlSafeSet\<close>), which are escaped; an ill-formed UTF-8 byte is written as the
  escape of U+FFFD, U+2028 and U+2029 as their escapes, every other
  multi-byte character as its own bytes.
\<close>

definition hex_char :: \<open>int \<Rightarrow> char\<close> where
  \<open>hex_char d = ''0123456789abcdef'' ! nat d\<close>

definition html_safe :: \<open>char \<Rightarrow> bool\<close> where
  \<open>html_safe c =
     (32 \<le> byte c \<and> byte c < 128 \<and> c \<noteq> dq \<and> c \<noteq> bsl \<and>
      c \<noteq> CHR ''<'' \<and> c \<noteq> CHR ''>'' \<and> c \<noteq> CHR ''&'')\<close>

definition escape_ascii :: \<open>char \<Rightarrow> string\<close> where
  \<open>escape_ascii c =
     (if c = bsl \<or> c = dq then [bsl, c]
      else if c = CHR 0x0A then [bsl, CHR ''n'']
      else if c = CHR 0x0D then [bsl, CHR ''r'']
      else if c = CHR 0x09 then [bsl, CHR ''t'']
      else [bsl, CHR ''u'', CHR ''0'', CHR ''0'', hex_char (byte c div 16), hex_char (byte c mod 16)])\<close>

fun encode_string_body :: \<open>string \<Rightarrow> string\<close> where
  \<open>encode_string_body [] = []\<close>
| \<open>encode_string_body (c # cs) =
     (if byte c < 128 then
        (if html_safe c then [c] else escape_ascii c) @ encode_string_body cs
      else
        (case decode_rune (c # cs) of
           (r, n) \<Rightarrow>
             if r = RuneError \<and> n = 1 then bsl # ''ufffd'' @ encode_string_body cs
             else if r = 8232 \<or> r = 8233 then
               bsl # ''u202'' @ [hex_char (r mod 16)] @ encode_string_body (drop (n - 1) cs)
             else c # take (n - 1) cs @ encode_string_body (drop (n - 1) cs)))\<close>

definition encode_string :: \<open>string \<Rightarrow> string\<close> where
  \<open>encode_string s = dq # encode_string_body s @ [dq]\<close>

subsection \<open>Reading a document\<close>

datatype json =
    JNull
  | JBool bool
  | JNum string
  | JStr string
  | JArr \<open>json list\<close>
  | JObj \<open>(string \<times> json) list\<close>

definition is_ws :: \<open>char \<Rightarrow> bool\<close> where
  \<open>is_ws c = (c = CHR '' '' \<or> c = CHR 0x09 \<or> c = CHR 0x0D \<or> c = CHR 0x0A)\<close>

definition skip_ws :: \<open>string \<Rightarrow> string\<close> where
  \<open>skip_ws s = dropWhile is_ws s\<close>

definition is_hex :: \<open>char \<Rightarrow> bool\<close> where
  \<open>is_hex c = (is_digit c \<or> (97 \<le> byte c \<and> byte c \<le> 102) \<or> (65 \<le> byte c \<and> byte c \<le> 70))\<close>

definition hex_val :: \<open>char \<Rightarrow> int\<close> where
  \<open>hex_val c = (if is_digit c then byte c - 48 else if 97 \<le> byte c then byte c - 87 else byte c - 55)\<close>

definition hex4 :: \<open>string \<Rightarrow> int\<close> where
  \<open>hex4 s = foldl (\<lambda>a c. a * 16 + hex_val c) 0 (take 4 s)\<close>

definition is_escapable :: \<open>char \<Rightarrow> bool\<close> where
  \<open>is_escapable e =
     (e = dq \<or> e = bsl \<or> e = CHR ''/'' \<or> e = CHR ''b'' \<or> e = CHR ''f'' \<or>
      e = CHR ''n'' \<or> e = CHR ''r'' \<or> e = CHR ''t'')\<close>

text \<open>
  The scanner inside a string literal, after the opening quote: the raw bytes up to
  the closing quote, and the input after it. A control character, or a backslash that
  does not start an escape, is a syntax error.
\<close>

fun scan_string :: \<open>string \<Rightarrow> (string \<times> string) option\<close> where
  \<open>scan_string [] = None\<close>
| \<open>scan_string (c # cs) =
     (if c = dq then Some ([], cs)
      else if c = bsl then
        (case cs of
           [] \<Rightarrow> None
         | e # r \<Rightarrow>
             if is_escapable e then
               map_option (\<lambda>(b, t). (c # e # b, t)) (scan_string r)
             else if e = CHR ''u'' \<and> 4 \<le> length r \<and> list_all is_hex (take 4 r) then
               map_option (\<lambda>(b, t). (c # e # take 4 r @ b, t)) (scan_string (drop 4 r))
             else None)
      else if byte c < 32 then None
      else map_option (\<lambda>(b, t). (c # b, t)) (scan_string cs))\<close>

definition esc_byte :: \<open>char \<Rightarrow> char\<close> where
  \<open>esc_byte e =
     (if e = CHR ''b'' then CHR 0x08 else if e = CHR ''f'' then CHR 0x0C
      else if e = CHR ''n'' then CHR 0x0A else if e = CHR ''r'' then CHR 0x0D
      else if e = CHR ''t'' then CHR 0x09 else e)\<close>

definition getu4 :: \<open>string \<Rightarrow> int option\<close> where
  \<open>getu4 s =
     (case s of
        b # u # r \<Rightarrow>
          if b = bsl \<and> u = CHR ''u'' \<and> 4 \<le> length r \<and> list_all is_hex (take 4 r)
          then Some (hex4 r) else None
      | _ \<Rightarrow> None)\<close>

text \<open>
  \<^verbatim>\<open>unquote\<close>: the Go string a raw literal stands for. Escapes are replaced, a
  \<^verbatim>\<open>\u\<close> surrogate pair becomes one code point (a lone surrogate becomes U+FFFD),
  and ill-formed UTF-8 bytes become U+FFFD.
\<close>

fun unquote :: \<open>string \<Rightarrow> string\<close> where
  \<open>unquote [] = []\<close>
| \<open>unquote (c # cs) =
     (if c = bsl then
        (case cs of
           [] \<Rightarrow> []
         | e # r \<Rightarrow>
             if e = CHR ''u'' then
               (if 55296 \<le> hex4 r \<and> hex4 r < 57344 then
                  (case getu4 (drop 4 r) of
                     Some rr1 \<Rightarrow>
                       if hex4 r < 56320 \<and> 56320 \<le> rr1 \<and> rr1 < 57344 then
                         encode_rune ((hex4 r - 55296) * 1024 + (rr1 - 56320) + 65536)
                           @ unquote (drop 10 r)
                       else encode_rune RuneError @ unquote (drop 4 r)
                   | None \<Rightarrow> encode_rune RuneError @ unquote (drop 4 r))
                else encode_rune (hex4 r) @ unquote (drop 4 r))
             else esc_byte e # unquote r)
      else if byte c < 128 then c # unquote cs
      else (case decode_rune (c # cs) of
              (r, n) \<Rightarrow> encode_rune r @ unquote (drop (n - 1) cs)))\<close>

text \<open>A number literal: \<open>-? (0 | [1-9][0-9]*) (. [0-9]+)? ([eE] [+-]? [0-9]+)?\<close>.\<close>

definition scan_int_part :: \<open>string \<Rightarrow> (string \<times> string) option\<close> where
  \<open>scan_int_part s =
     (case s of
        [] \<Rightarrow> None
      | c # r \<Rightarrow>
          if \<not> is_digit c then None
          else if c = CHR ''0'' then Some ([c], r)
          else Some (takeWhile is_digit s, dropWhile is_digit s))\<close>

definition scan_frac :: \<open>string \<Rightarrow> (string \<times> string) option\<close> where
  \<open>scan_frac s =
     (case s of
        [] \<Rightarrow> Some ([], s)
      | c # r \<Rightarrow>
          if c \<noteq> CHR ''.'' then Some ([], s)
          else if takeWhile is_digit r = [] then None
          else Some (c # takeWhile is_digit r, dropWhile is_digit r))\<close>

definition scan_exp :: \<open>string \<Rightarrow> (string \<times> string) option\<close> where
  \<open>scan_exp s =
     (case s of
        [] \<Rightarrow> Some ([], s)
      | c # r \<Rightarrow>
          if c \<noteq> CHR ''e'' \<and> c \<noteq> CHR ''E'' then Some ([], s)
          else
            (let sg = (case r of [] \<Rightarrow> [] | g # _ \<Rightarrow> if g = CHR ''+'' \<or> g = CHR ''-'' then [g] else []);
                 r1 = drop (length sg) r
             in if takeWhile is_digit r1 = [] then None
                else Some (c # sg @ takeWhile is_digit r1, dropWhile is_digit r1)))\<close>

definition scan_number :: \<open>string \<Rightarrow> (string \<times> string) option\<close> where
  \<open>scan_number s =
     (let sg = (case s of [] \<Rightarrow> [] | c # _ \<Rightarrow> if c = CHR ''-'' then [c] else [])
      in case scan_int_part (drop (length sg) s) of
           None \<Rightarrow> None
         | Some (ip, s1) \<Rightarrow>
             (case scan_frac s1 of
                None \<Rightarrow> None
              | Some (fp, s2) \<Rightarrow>
                  (case scan_exp s2 of
                     None \<Rightarrow> None
                   | Some (ep, s3) \<Rightarrow> Some (sg @ ip @ fp @ ep, s3))))\<close>

text \<open>
  The document parser. The first argument bounds the number of nested calls; each
  call is made after at least one byte has been read by one of the two calls before
  it, so twice the length of the input is enough for every document.
\<close>

fun parse_value :: \<open>nat \<Rightarrow> string \<Rightarrow> (json \<times> string) option\<close>
  and parse_elems :: \<open>nat \<Rightarrow> string \<Rightarrow> (json list \<times> string) option\<close>
  and parse_members :: \<open>nat \<Rightarrow> string \<Rightarrow> ((string \<times> json) list \<times> string) option\<close>
where
  \<open>parse_value 0 s = None\<close>
| \<open>parse_value (Suc f) s =
     (case s of
        [] \<Rightarrow> None
      | c # cs \<Rightarrow>
          if c = CHR ''{'' then
            (case skip_ws cs of
               [] \<Rightarrow> None
             | d # ds \<Rightarrow>
                 if d = CHR ''}'' then Some (JObj [], ds)
                 else map_option (\<lambda>(ms, r). (JObj ms, r)) (parse_members f (d # ds)))
          else if c = CHR ''['' then
            (case skip_ws cs of
               [] \<Rightarrow> None
             | d # ds \<Rightarrow>
                 if d = CHR '']'' then Some (JArr [], ds)
                 else map_option (\<lambda>(vs, r). (JArr vs, r)) (parse_elems f (d # ds)))
          else if c = dq then map_option (\<lambda>(raw, r). (JStr (unquote raw), r)) (scan_string cs)
          else if c = CHR ''-'' \<or> is_digit c then
            map_option (\<lambda>(lit, r). (JNum lit, r)) (scan_number s)
          else if take 4 s = ''true'' then Some (JBool True, drop 4 s)
          else if take 5 s = ''false'' then Some (JBool False, drop 5 s)
          else if take 4 s = ''null'' then Some (JNull, drop 4 s)
          else None)\<close>
| \<open>parse_elems 0 s = None\<close>
| \<open>parse_elems (Suc f) s =
     (case parse_value f s of
        None \<Rightarrow> None
      | Some (v, r) \<Rightarrow>
          (case skip_ws r of
             [] \<Rightarrow> None
           | d # ds \<Rightarrow>
               if d = CHR '','' then
                 map_option (\<lambda>(vs, t). (v # vs, t)) (parse_elems f (skip_ws ds))
               else if d = CHR '']'' then Some ([v], ds)
               else None))\<close>
| \<open>parse_members 0 s = None\<close>
| \<open>parse_members (Suc f) s =
     (case s of
        [] \<Rightarrow> None
      | c # cs \<Rightarrow>
          if c \<noteq> dq then None
          else
            (case scan_string cs of
               None \<Rightarrow> None
             | Some (rawk, r1) \<Rightarrow>
                 (case skip_ws r1 of
                    [] \<Rightarrow> None
                  | d # r2 \<Rightarrow>
                      if d \<noteq> CHR '':'' then None
                      else
                        (case parse_value f (skip_ws r2) of
                           None \<Rightarrow> None
                         | Some (v, r3) \<Rightarrow>
                             (case skip_ws r3 of
                                [] \<Rightarrow> None
                              | e # r4 \<Rightarrow>
                                  if e = CHR '','' then
                                    map_option (\<lambda>(ms, t). ((unquote rawk, v) # ms, t))
                                      (parse_members f (skip_ws r4))
                                  else if e = CHR ''}'' then Some ([(unquote rawk, v)], r4)
                                  else None)))))\<close>

definition json_parse :: \<open>bytes \<Rightarrow> json option\<close> where
  \<open>json_parse data =
     (case parse_value (2 * length data + 2) (skip_ws data) of
        None \<Rightarrow> None
      | Some (j, r) \<Rightarrow> if skip_ws r = [] then Some j else None)\<close>

text \<open>
  A key of an object selects the struct field whose name it equals when case is
  ignored. Under Unicode simple folding the only characters outside ASCII that fold to
  an ASCII letter are U+017F (to \<open>s\<close>) and U+212A (to \<open>k\<close>).
\<close>

fun fold_name :: \<open>string \<Rightarrow> string\<close> where
  \<open>fold_name [] = []\<close>
| \<open>fold_name (c # cs) =
     (if 97 \<le> byte c \<and> byte c \<le> 122 then char_of (byte c - 32) # fold_name cs
      else if take 2 (c # cs) = [CHR 0xC5, CHR 0xBF] then CHR ''S'' # fold_name (drop 1 cs)
      else if take 3 (c # cs) = [CHR 0xE2, CHR 0x84, CHR 0xAA] then CHR ''K'' # fold_name (drop 2 cs)
      else c # fold_name cs)\<close>

datatype json_error = SyntaxError | UnmarshalTypeError

definition json_error_msg :: \<open>json_error \<Rightarrow> string\<close> where
  \<open>json_error_msg e =
     (case e of
        SyntaxError \<Rightarrow> ''json: syntax error''
      | UnmarshalTypeError \<Rightarrow> ''json: cannot unmarshal value into Go struct'')\<close>

section \<open>The ledger stub\<close>

text \<open>
  The chaincode reaches the ledger through \<^verbatim>\<open>shim.ChaincodeStubInterface\<close>, which
  belongs to the hosting environment. It is modelled after the ledger access layer of the
  design: a key-value state, read with \<open>GetState\<close> (an absent key is the value
  \<^verbatim>\<open>nil\<close>, here \<open>None\<close>, and no error), written with \<open>PutState\<close>, erased with
  \<open>DelState\<close> (erasing an absent key is no error) and scanned with
  \<open>GetStateByRange\<close>, from the start key (included) to the end key (excluded) in the
  lexicographic order of the key bytes.

  Any call may fail with a backing-store fault. The faults are scripted: the state
  carries the list of the outcomes of the calls to come, \<open>Some msg\<close> for a fault with
  that message; an exhausted script means no fault. The state also logs every call, so
  that an operation that leaves the state as it was has made no call at all.
\<close>

datatype stub_call =
    CGet string
  | CPut string bytes
  | CDel string
  | CRange string string
  | CNext
  | CClose

record stub =
  kv :: \<open>(string \<times> bytes) list\<close>
  faults :: \<open>string option list\<close>
  calls :: \<open>stub_call list\<close>

definition next_fault :: \<open>stub \<Rightarrow> string option\<close> where
  \<open>next_fault s = (case faults s of [] \<Rightarrow> None | f # _ \<Rightarrow> f)\<close>

definition tick :: \<open>stub_call \<Rightarrow> stub \<Rightarrow> string option \<times> stub\<close> where
  \<open>tick c s = (next_fault s, s\<lparr>faults := tl (faults s), calls := calls s @ [c]\<rparr>)\<close>

definition GetState :: \<open>string \<Rightarrow> stub \<Rightarrow> (string + bytes option) \<times> stub\<close> where
  \<open>GetState key s =
     (case tick (CGet key) s of
        (Some e, s') \<Rightarrow> (Inl e, s')
      | (None, s') \<Rightarrow> (Inr (map_of (kv s) key), s'))\<close>

definition PutState :: \<open>string \<Rightarrow> bytes \<Rightarrow> stub \<Rightarrow> string option \<times> stub\<close> where
  \<open>PutState key val s =
     (case tick (CPut key val) s of
        (Some e, s') \<Rightarrow> (Some e, s')
      | (None, s') \<Rightarrow> (None, s'\<lparr>kv := AList.update key val (kv s')\<rparr>))\<close>

definition DelState :: \<open>string \<Rightarrow> stub \<Rightarrow> string option \<times> stub\<close> where
  \<open>DelState key s =
     (case tick (CDel key) s of
        (Some e, s') \<Rightarrow> (Some e, s')
      | (None, s') \<Rightarrow> (None, s'\<lparr>kv := AList.delete key (kv s')\<rparr>))\<close>

definition in_range :: \<open>string \<Rightarrow> string \<Rightarrow> string \<Rightarrow> bool\<close> where
  \<open>in_range startKey endKey k = (startKey \<le> k \<and> k < endKey)\<close>

definition range_entries :: \<open>(string \<times> bytes) list \<Rightarrow> string \<Rightarrow> string \<Rightarrow> (string \<times> bytes) list\<close> where
  \<open>range_entries al startKey endKey =
     concat (map (\<lambda>k. case map_of al k of None \<Rightarrow> [] | Some v \<Rightarrow> [(k, v)])
       (filter (in_range startKey endKey) (sort (remdups (map fst al)))))\<close>

text \<open>
  \<open>GetStateByRange\<close> hands out an iterator, modelled as the list of the entries still
  to come; \<^verbatim>\<open>HasNext\<close> tests it for emptiness, \<open>Next\<close> is a call of its own that may
  fault, and \<open>Close\<close> releases it.
\<close>

definition GetStateByRange :: \<open>string \<Rightarrow> string \<Rightarrow> stub \<Rightarrow> (string + (string \<times> bytes) list) \<times> stub\<close> where
  \<open>GetStateByRange startKey endKey s =
     (case tick (CRange startKey endKey) s of
        (Some e, s') \<Rightarrow> (Inl e, s')
      | (None, s') \<Rightarrow> (Inr (range_entries (kv s) startKey endKey), s'))\<close>

definition Close :: \<open>stub \<Rightarrow> stub\<close> where
  \<open>Close s = s\<lparr>calls := calls s @ [CClose]\<rparr>\<close>

text \<open>
  \<open>CreateCompositeKey\<close> reads no state. The key is the object type and the attributes,
  each followed by the delimiter U+0000, after a leading U+0000; a part that is not
  well-formed UTF-8 or that holds U+0000 or U+10FFFF is refused.
\<close>

fun has_max_rune :: \<open>string \<Rightarrow> bool\<close> where
  \<open>has_max_rune [] = False\<close>
| \<open>has_max_rune (c # cs) =
     (take 4 (c # cs) = [CHR 0xF4, CHR 0x8F, CHR 0xBF, CHR 0xBF] \<or> has_max_rune cs)\<close>

definition validateCompositeKeyAttribute :: \<open>string \<Rightarrow> string option\<close> where
  \<open>validateCompositeKeyAttribute str =
     (if \<not> valid_utf8 str then Some ''Not a valid utf8 string''
      else if CHR 0x00 \<in> set str \<or> has_max_rune str then
        Some ''Input contain unicode U+0000 or U+10FFFF''
      else None)\<close>

fun append_attributes :: \<open>string \<Rightarrow> string list \<Rightarrow> string + string\<close> where
  \<open>append_attributes ck [] = Inr ck\<close>
| \<open>append_attributes ck (att # atts) =
     (case validateCompositeKeyAttribute att of
        Some e \<Rightarrow> Inl e
      | None \<Rightarrow> append_attributes (ck @ att @ [CHR 0x00]) atts)\<close>

definition CreateCompositeKey :: \<open>string \<Rightarrow> string list \<Rightarrow> string + string\<close> where
  \<open>CreateCompositeKey objectType attributes =
     (case validateCompositeKeyAttribute objectType of
        Some e \<Rightarrow> Inl e
      | None \<Rightarrow> append_attributes (CHR 0x00 # objectType @ [CHR 0x00]) attributes)\<close>

section \<open>Responses\<close>

text \<open>
  A handler answers \<^verbatim>\<open>shim.Success(payload)\<close> or \<^verbatim>\<open>shim.Error(message)\<close>. The
  source tells its failures apart by the message only; each \<open>Error\<close> below carries,
  beside the message of the source, the class of the design's taxonomy that the return
  site belongs to.
\<close>

datatype err_kind =
    ValidationError
  | NotFoundError
  | ConflictError
  | DecodeError
  | StoreError
  | IndexError
  | UnknownFunction

datatype response =
    Success \<open>bytes option\<close>
  | Error err_kind string

definition nil_bytes :: \<open>bytes option \<Rightarrow> bytes\<close> where
  \<open>nil_bytes b = (case b of None \<Rightarrow> [] | Some v \<Rightarrow> v)\<close>

section \<open>coggia.go\<close>

record Wallet_coggia =
  Address :: string
  Balance :: go_int

text \<open>
  \<^verbatim>\<open>json.Marshal\<close> of a \<^verbatim>\<open>Wallet\<close>: the two exported fields under the names of
  their tags, in the order of the struct. It cannot fail on this type.
\<close>

definition Marshal_coggia :: \<open>Wallet_coggia \<Rightarrow> bytes\<close> where
  \<open>Marshal_coggia w =
     ''{"address":'' @ encode_string (Address w) @ '',"balance":'' @ Itoa (Balance w) @ ''}''\<close>

text \<open>
  \<^verbatim>\<open>json.Unmarshal\<close> into a fresh \<^verbatim>\<open>Wallet{}\<close>. The document must be well-formed;
  an object sets the fields its keys name, a later key overriding an earlier one, and
  \<^verbatim>\<open>null\<close> sets nothing. A value of the wrong JSON type for its field, a number that
  is not an integer of 64 bits, or a document that is neither an object nor
  \<^verbatim>\<open>null\<close> is an error (the decoder goes on to the end of the document and then
  returns the first such error; the caller sees the error only).
\<close>

fun decode_fields_coggia :: \<open>(string \<times> json) list \<Rightarrow> Wallet_coggia \<Rightarrow> json_error + Wallet_coggia\<close> where
  \<open>decode_fields_coggia [] w = Inr w\<close>
| \<open>decode_fields_coggia ((k, v) # ms) w =
     (if fold_name k = ''ADDRESS'' then
        (case v of
           JStr s \<Rightarrow> decode_fields_coggia ms (w\<lparr>Address := s\<rparr>)
         | JNull \<Rightarrow> decode_fields_coggia ms w
         | _ \<Rightarrow> Inl UnmarshalTypeError)
      else if fold_name k = ''BALANCE'' then
        (case v of
           JNum lit \<Rightarrow>
             (case ParseInt lit of
                (n, None) \<Rightarrow> decode_fields_coggia ms (w\<lparr>Balance := n\<rparr>)
              | (n, Some e) \<Rightarrow> Inl UnmarshalTypeError)
         | JNull \<Rightarrow> decode_fields_coggia ms w
         | _ \<Rightarrow> Inl UnmarshalTypeError)
      else decode_fields_coggia ms w)\<close>

definition Unmarshal_coggia :: \<open>bytes \<Rightarrow> json_error + Wallet_coggia\<close> where
  \<open>Unmarshal_coggia data =
     (case json_parse data of
        None \<Rightarrow> Inl SyntaxError
      | Some (JObj ms) \<Rightarrow> decode_fields_coggia ms \<lparr>Address = [], Balance = 0\<rparr>
      | Some JNull \<Rightarrow> Inr \<lparr>Address = [], Balance = 0\<rparr>
      | Some _ \<Rightarrow> Inl UnmarshalTypeError)\<close>

text \<open>
  \<^verbatim>\<open>initWallet\<close>. The result of \<^verbatim>\<open>Atoi\<close> is bound with \<^verbatim>\<open>balance, _ :=\<close>, so
  the \<^verbatim>\<open>err\<close> tested on the next line is still the \<^verbatim>\<open>nil\<close> of its declaration. The
  result of the second \<^verbatim>\<open>PutState\<close> is not looked at.
\<close>

definition initWallet :: \<open>stub \<Rightarrow> string list \<Rightarrow> response \<times> stub\<close> where
  \<open>initWallet stub args =
     (if length args \<noteq> 2 then
        (Error ValidationError ''Incorrect Number of arguments, expecting 2'', stub)
      else if length (args ! 0) \<le> 0 \<or> length (args ! 0) \<le> 0 then
        (Error ValidationError ''Arguments can't be non empty'', stub)
      else
        (let address = args ! 0;
             balance = fst (Atoi (args ! 1));
             err = (None :: conv_err option)
         in if err \<noteq> None then
              (Error ValidationError ''2nd Argument must be a numeric string'', stub)
            else
              (let Wallet = \<lparr>Address = address, Balance = balance\<rparr>;
                   WalletJSONasBytes = Marshal_coggia Wallet
               in case PutState address WalletJSONasBytes stub of
                    (Some e, stub1) \<Rightarrow> (Error StoreError e, stub1)
                  | (None, stub1) \<Rightarrow>
                      (case CreateCompositeKey ''address~balance''
                              [Address Wallet, Itoa (Balance Wallet)] of
                         Inl e \<Rightarrow> (Error IndexError e, stub1)
                       | Inr addressBalanceIndexKey \<Rightarrow>
                           (Success None,
                            snd (PutState addressBalanceIndexKey [CHR 0x00] stub1))))))\<close>

definition readWallet :: \<open>stub \<Rightarrow> string list \<Rightarrow> response \<times> stub\<close> where
  \<open>readWallet stub args =
     (if length args \<noteq> 1 then
        (Error ValidationError ''Incorrect number of arguments, expecting the address to query'',
         stub)
      else
        (let address = args ! 0 in
         case GetState address stub of
           (Inl e, stub1) \<Rightarrow>
             (Error StoreError (''{"Error":"Failed to get state for '' @ address @ ''"}''), stub1)
         | (Inr None, stub1) \<Rightarrow>
             (Error NotFoundError (''{"Error":"Wallet does not exist: '' @ address @ ''"}''), stub1)
         | (Inr (Some valAsBytes), stub1) \<Rightarrow> (Success (Some valAsBytes), stub1)))\<close>

text \<open>
  \<^verbatim>\<open>transferFunds\<close>. The amount is \<^verbatim>\<open>transfer, _ := strconv.Atoi(args[2])\<close>: the
  error is dropped and the value \<^verbatim>\<open>Atoi\<close> returns beside it is used. The receiving
  wallet is written first.
\<close>

definition transferFunds_coggia :: \<open>stub \<Rightarrow> string list \<Rightarrow> response \<times> stub\<close> where
  \<open>transferFunds_coggia stub args =
     (if length args < 3 then
        (Error ValidationError ''Incorrect number of arguments. Expecting 3'', stub)
      else
        (let from = args ! 0;
             to = args ! 1;
             transfer = fst (Atoi (args ! 2))
         in case GetState from stub of
              (Inl e, stub1) \<Rightarrow> (Error StoreError (''Failed to get Wallet: '' @ e), stub1)
            | (Inr None, stub1) \<Rightarrow> (Error NotFoundError ''Wallet 1 doesn't exist'', stub1)
            | (Inr (Some fromAsBytes), stub1) \<Rightarrow>
                (case GetState to stub1 of
                   (Inl e, stub2) \<Rightarrow> (Error StoreError (''Failed to get Wallet: '' @ e), stub2)
                 | (Inr None, stub2) \<Rightarrow> (Error NotFoundError ''Wallet 1 doesn't exist'', stub2)
                 | (Inr (Some toAsBytes), stub2) \<Rightarrow>
                     (case Unmarshal_coggia fromAsBytes of
                        Inl e \<Rightarrow> (Error DecodeError (json_error_msg e), stub2)
                      | Inr WalletFrom \<Rightarrow>
                          (case Unmarshal_coggia toAsBytes of
                             Inl e \<Rightarrow> (Error DecodeError (json_error_msg e), stub2)
                           | Inr WalletTo \<Rightarrow>
                               (let WalletTo' = WalletTo\<lparr>Balance := Balance WalletTo + transfer\<rparr>;
                                    WalletFrom' = WalletFrom\<lparr>Balance := Balance WalletFrom - transfer\<rparr>
                                in case PutState to (Marshal_coggia WalletTo') stub2 of
                                     (Some e, stub3) \<Rightarrow> (Error StoreError e, stub3)
                                   | (None, stub3) \<Rightarrow>
                                       (case PutState from (Marshal_coggia WalletFrom') stub3 of
                                          (Some e, stub4) \<Rightarrow> (Error StoreError e, stub4)
                                        | (None, stub4) \<Rightarrow> (Success None, stub4))))))))\<close>

text \<open>
  The loop of \<^verbatim>\<open>getWalletsByRange\<close> over the iterator: the flag
  \<^verbatim>\<open>bArrayMemberAlreadyWritten\<close>, the entries still to come, the buffer.
\<close>

fun write_members :: \<open>bool \<Rightarrow> (string \<times> bytes) list \<Rightarrow> string \<Rightarrow> stub \<Rightarrow> (string + string) \<times> stub\<close> where
  \<open>write_members bArrayMemberAlreadyWritten [] buffer stub = (Inr buffer, stub)\<close>
| \<open>write_members bArrayMemberAlreadyWritten ((Key, Value) # resultsIterator) buffer stub =
     (case tick CNext stub of
        (Some e, stub1) \<Rightarrow> (Inl e, stub1)
      | (None, stub1) \<Rightarrow>
          write_members True resultsIterator
            (buffer @ (if bArrayMemberAlreadyWritten = True then '','' else [])
               @ ''{"Key":'' @ ''"'' @ Key @ ''"'' @ '', "Record":'' @ Value @ ''}'')
            stub1)\<close>

definition getWalletsByRange :: \<open>stub \<Rightarrow> string list \<Rightarrow> response \<times> stub\<close> where
  \<open>getWalletsByRange stub args =
     (if length args < 2 then
        (Error ValidationError ''Incorrect number of arguments. Expecting 2'', stub)
      else
        (let startKey = args ! 0;
             endKey = args ! 1
         in case GetStateByRange startKey endKey stub of
              (Inl e, stub1) \<Rightarrow> (Error StoreError e, stub1)
            | (Inr resultsIterator, stub1) \<Rightarrow>
                (case write_members False resultsIterator ''['' stub1 of
                   (Inl e, stub2) \<Rightarrow> (Error StoreError e, Close stub2)
                 | (Inr buffer, stub2) \<Rightarrow> (Success (Some (buffer @ '']'')), Close stub2))))\<close>

definition Invoke_coggia :: \<open>stub \<Rightarrow> string \<Rightarrow> string list \<Rightarrow> response \<times> stub\<close> where
  \<open>Invoke_coggia stub function args =
     (if function = ''initWallet'' then initWallet stub args
      else if function = ''transferFunds'' then transferFunds_coggia stub args
      else if function = ''readWallet'' then readWallet stub args
      else if function = ''getWalletsByRange'' then getWalletsByRange stub args
      else (Error UnknownFunction ''Received Unknown function invocation'', stub))\<close>

section \<open>The Halley contract\<close>

text \<open>
  The second program declares its \<^verbatim>\<open>Wallet\<close> with the fields \<^verbatim>\<open>id\<close>,
  \<^verbatim>\<open>balance\<close> and \<^verbatim>\<open>owner\<close>, spelt in lower case, each with a \<^verbatim>\<open>json\<close> tag.
  A field whose name starts in lower case is not exported, and \<^verbatim>\<open>encoding/json\<close>
  neither writes nor sets a field that is not exported, whatever its tag: the encoding
  of every wallet is the empty object, and decoding a document leaves the wallet as it
  was, here the zero value. A document that is not well-formed, or that is neither an
  object nor \<^verbatim>\<open>null\<close>, is still an error.
\<close>

record Wallet_halley =
  wallet_id :: string
  balance :: go_int
  owner :: string

definition Marshal_halley :: \<open>Wallet_halley \<Rightarrow> bytes\<close> where
  \<open>Marshal_halley w = ''{}''\<close>

definition Unmarshal_halley :: \<open>bytes \<Rightarrow> json_error + Wallet_halley\<close> where
  \<open>Unmarshal_halley data =
     (case json_parse data of
        None \<Rightarrow> Inl SyntaxError
      | Some (JObj ms) \<Rightarrow> Inr \<lparr>wallet_id = [], balance = 0, owner = []\<rparr>
      | Some JNull \<Rightarrow> Inr \<lparr>wallet_id = [], balance = 0, owner = []\<rparr>
      | Some _ \<Rightarrow> Inl UnmarshalTypeError)\<close>

text \<open>
  \<^verbatim>\<open>transferFunds\<close>. The test after the second \<^verbatim>\<open>GetState\<close> is on
  \<^verbatim>\<open>fromAsBytes\<close> again, which is known not to be \<^verbatim>\<open>nil\<close> there, so a missing
  receiving wallet goes on to \<^verbatim>\<open>json.Unmarshal\<close> as \<^verbatim>\<open>nil\<close> bytes. The amount
  is parsed after both wallets are decoded. The two records are written under the
  \<^verbatim>\<open>id\<close> fields of the decoded wallets, the sending wallet first.
\<close>

definition transferFunds_halley :: \<open>stub \<Rightarrow> string list \<Rightarrow> response \<times> stub\<close> where
  \<open>transferFunds_halley APIstub args =
     (if length args < 3 then
        (Error ValidationError ''Incorrect Number of arguments. Expecting 3'', APIstub)
      else
        (case GetState (args ! 0) APIstub of
           (Inl e, stub1) \<Rightarrow> (Error StoreError ''Failed to get [FROM] Wallet'', stub1)
         | (Inr None, stub1) \<Rightarrow> (Error NotFoundError ''Wallet [FROM] does not exist'', stub1)
         | (Inr (Some fromBytes), stub1) \<Rightarrow>
             (let fromAsBytes = Some fromBytes in
              case GetState (args ! 1) stub1 of
                (Inl e, stub2) \<Rightarrow> (Error StoreError ''Failed to get [TO] Wallet'', stub2)
              | (Inr toAsBytes, stub2) \<Rightarrow>
                  if fromAsBytes = None then
                    (Error NotFoundError ''Wallet [TO] does not exist'', stub2)
                  else
                    (case Unmarshal_halley (nil_bytes fromAsBytes) of
                       Inl e \<Rightarrow> (Error DecodeError ''Failed to unmarshal wallet'', stub2)
                     | Inr from \<Rightarrow>
                         (case Unmarshal_halley (nil_bytes toAsBytes) of
                            Inl e \<Rightarrow> (Error DecodeError ''Failed to unmarshal wallet'', stub2)
                          | Inr to \<Rightarrow>
                              (case Atoi (args ! 2) of
                                 (funds, Some e) \<Rightarrow>
                                   (Error ValidationError ''Failed to parse into Integer'', stub2)
                               | (funds, None) \<Rightarrow>
                                   (let from' = from\<lparr>balance := balance from - funds\<rparr>;
                                        to' = to\<lparr>balance := balance to + funds\<rparr>
                                    in case PutState (wallet_id from') (Marshal_halley from') stub2 of
                                         (Some e, stub3) \<Rightarrow>
                                           (Error StoreError
                                              (''Error saving the state of wallet [F]'' @ e), stub3)
                                       | (None, stub3) \<Rightarrow>
                                           (case PutState (wallet_id to') (Marshal_halley to') stub3 of
                                              (Some e, stub4) \<Rightarrow>
                                                (Error StoreError
                                                   (''Error saving the state of the wallet [T]'' @ e),
                                                 stub4)
                                            | (None, stub4) \<Rightarrow> (Success None, stub4)))))))))\<close>

definition createWallet :: \<open>stub \<Rightarrow> string list \<Rightarrow> response \<times> stub\<close> where
  \<open>createWallet APIstub args =
     (if length args \<noteq> 3 then
        (Error ValidationError ''Incorrect number of arguments. Expecting 3'', APIstub)
      else
        (let id = args ! 0 in
         case Atoi (args ! 1) of
           (balance', Some e) \<Rightarrow>
             (Error ValidationError ''2nd argument can't be parsed into an Integer'', APIstub)
         | (balance', None) \<Rightarrow>
             (let owner' = args ! 2 in
              case GetState id APIstub of
                (Inl e, stub1) \<Rightarrow> (Error StoreError ''Failed to get marble'', stub1)
              | (Inr (Some walletAsBytes), stub1) \<Rightarrow>
                  (Error ConflictError (''This wallet already exists: '' @ id), stub1)
              | (Inr None, stub1) \<Rightarrow>
                  (let wallet = \<lparr>wallet_id = id, balance = balance', owner = owner'\<rparr>;
                       walletJSONasBytes = Marshal_halley wallet
                   in case PutState id walletJSONasBytes stub1 of
                        (Some e, stub2) \<Rightarrow> (Error StoreError ''Failed to save the wallet'', stub2)
                      | (None, stub2) \<Rightarrow> (Success None, stub2)))))\<close>

definition queryWallet :: \<open>stub \<Rightarrow> string list \<Rightarrow> response \<times> stub\<close> where
  \<open>queryWallet APIstub args =
     (if length args < 1 then
        (Error ValidationError ''Incorrect number of arguments. Expecting 1'', APIstub)
      else
        (let id = args ! 0 in
         case GetState id APIstub of
           (Inl e, stub1) \<Rightarrow>
             (Error StoreError (''{"Error":"Failed to get state for '' @ id @ ''"}''), stub1)
         | (Inr None, stub1) \<Rightarrow>
             (Error NotFoundError (''{"Error":"Wallet does not exist: '' @ id @ ''"}''), stub1)
         | (Inr (Some valAsBytes), stub1) \<Rightarrow>
             (Success (Some (''{"ID":"'' @ id @ ''","RESULT":"'' @ valAsBytes @ ''"}'')), stub1)))\<close>

definition deleteWallet :: \<open>stub \<Rightarrow> string list \<Rightarrow> response \<times> stub\<close> where
  \<open>deleteWallet APIstub args =
     (if length args < 1 then
        (Error ValidationError ''Incorrect number of arguments. Expecting 1'', APIstub)
      else
        (let id = args ! 0 in
         case DelState id APIstub of
           (Some e, stub1) \<Rightarrow> (Error StoreError ''Failed to delete state'', stub1)
         | (None, stub1) \<Rightarrow> (Success None, stub1)))\<close>

definition Invoke_halley :: \<open>stub \<Rightarrow> string \<Rightarrow> string list \<Rightarrow> response \<times> stub\<close> where
  \<open>Invoke_halley APIstub function args =
     (if function = ''transferFunds'' then transferFunds_halley APIstub args
      else if function = ''createWallet'' then createWallet APIstub args
      else if function = ''queryWallet'' then queryWallet APIstub args
      else if function = ''deleteWallet'' then deleteWallet APIstub args
      else (Error UnknownFunction ''Received Unknown function invocation'', APIstub))\<close>

section \<open>The balance of a wallet\<close>

text \<open>
  The balance a program sees at a key: the \<^verbatim>\<open>Balance\<close> field of the wallet that its
  own \<^verbatim>\<open>json.Unmarshal\<close> reads from the stored bytes; none when the key holds no
  record or the record does not decode.
\<close>

definition balance_coggia :: \<open>stub \<Rightarrow> string \<Rightarrow> go_int option\<close> where
  \<open>balance_coggia s k =
     (case map_of (kv s) k of
        None \<Rightarrow> None
      | Some b \<Rightarrow> (case Unmarshal_coggia b of Inl e \<Rightarrow> None | Inr w \<Rightarrow> Some (Balance w)))\<close>

definition balance_halley :: \<open>stub \<Rightarrow> string \<Rightarrow> go_int option\<close> where
  \<open>balance_halley s k =
     (case map_of (kv s) k of
        None \<Rightarrow> None
      | Some b \<Rightarrow> (case Unmarshal_halley b of Inl e \<Rightarrow> None | Inr w \<Rightarrow> Some (balance w)))\<close>

section \<open>The range document of the design\<close>




section \<open>Example ledgers\<close>

text \<open>
  Ledgers on which the properties below are run: an empty one; one holding the wallets
  \<open>a\<close>, \<open>b\<close> and \<open>c\<close> as \<open>initWallet\<close> of coggia.go leaves them, each with its
  index entry; one holding the wallets \<open>w1\<close> and \<open>w2\<close> as \<open>createWallet\<close> of the
  Halley contract leaves them; one holding a wallet \<open>a\<close> whose balance is one above
  the least 64-bit integer and a wallet \<open>b\<close> of balance 0, again as \<open>initWallet\<close>
  leaves them; the Halley ledger with two more records, one cut short and one that is a
  JSON array, neither of which decodes to a wallet. \<open>with_faults\<close> sets the outcomes of
  the calls to come.
\<close>

definition empty_ledger :: stub where
  \<open>empty_ledger = \<lparr>kv = [], faults = [], calls = []\<rparr>\<close>

definition index_key :: \<open>string \<Rightarrow> string \<Rightarrow> string\<close> where
  \<open>index_key a b = CHR 0x00 # ''address~balance'' @ CHR 0x00 # a @ CHR 0x00 # b @ [CHR 0x00]\<close>

definition coggia_ledger :: stub where
  \<open>coggia_ledger =
     \<lparr>kv = [(''a'', ''{"address":"a","balance":100}''), (index_key ''a'' ''100'', [CHR 0x00]),
            (''b'', ''{"address":"b","balance":5}''), (index_key ''b'' ''5'', [CHR 0x00]),
            (''c'', ''{"address":"c","balance":-7}''), (index_key ''c'' ''-7'', [CHR 0x00])],
      faults = [], calls = []\<rparr>\<close>

definition halley_ledger :: stub where
  \<open>halley_ledger = \<lparr>kv = [(''w1'', ''{}''), (''w2'', ''{}'')], faults = [], calls = []\<rparr>\<close>

definition overflow_ledger :: stub where
  \<open>overflow_ledger =
     \<lparr>kv = [(''a'', ''{"address":"a","balance":-9223372036854775807}''),
            (index_key ''a'' ''-9223372036854775807'', [CHR 0x00]),
            (''b'', ''{"address":"b","balance":0}''), (index_key ''b'' ''0'', [CHR 0x00])],
      faults = [], calls = []\<rparr>\<close>

definition corrupt_ledger :: stub where
  \<open>corrupt_ledger =
     \<lparr>kv = [(''w1'', ''{}''), (''w2'', ''{}''), (''torn'', ''{"id":''), (''list'', ''[1]'')],
      faults = [], calls = []\<rparr>\<close>

definition with_faults :: \<open>string option list \<Rightarrow> stub \<Rightarrow> stub\<close> where
  \<open>with_faults fs s = s\<lparr>faults := fs\<rparr>\<close>

section \<open>The ledger stub and the handlers: basic facts\<close>

lemma coggia_ledger_built:
  \<open>kv (snd (initWallet (snd (initWallet (snd (initWallet empty_ledger [''a'', ''100'']))
           [''b'', ''5''])) [''c'', ''-7''])) = kv coggia_ledger\<close>
  by code_simp

lemma overflow_ledger_built:
  \<open>kv (snd (initWallet (snd (initWallet empty_ledger [''a'', ''-9223372036854775807'']))
           [''b'', ''0''])) = kv overflow_ledger\<close>
  by code_simp

lemma halley_ledger_built:
  \<open>kv (snd (createWallet (snd (createWallet empty_ledger [''w1'', ''100'', ''alice'']))
           [''w2'', ''50'', ''bob''])) = kv halley_ledger\<close>
  by code_simp

lemma kv_tick [simp]: \<open>kv (snd (tick c s)) = kv s\<close>
  by (simp add: tick_def)

lemma fst_tick [simp]: \<open>fst (tick c s) = next_fault s\<close>
  by (simp add: tick_def)

lemma kv_GetState [simp]: \<open>kv (snd (GetState k s)) = kv s\<close>
  by (simp add: GetState_def tick_def split: option.splits)

lemma append_attributes_length:
  \<open>append_attributes ck atts = Inr key \<Longrightarrow> length ck + sum_list (map length atts) \<le> length key\<close>
  by (induction ck atts rule: append_attributes.induct) (auto split: option.splits)

text \<open>The index key built for a wallet is longer than the wallet's own key.\<close>

lemma index_key_differs:
  assumes \<open>CreateCompositeKey ''address~balance'' [a, b] = Inr key\<close>
  shows \<open>key \<noteq> a\<close>
proof -
  from assms have \<open>length a < length key\<close>
    by (auto simp: CreateCompositeKey_def split: option.splits dest!: append_attributes_length)
  then show ?thesis by auto
qed

section \<open>Dispatch\<close>

text \<open>
  C10. For every operation name outside the dispatched set (createWallet, initWallet,
  queryWallet, readWallet, transferFunds, deleteWallet, getWalletsByRange), \<open>Invoke\<close>
  of either program returns the error response "Received Unknown function invocation"
  and returns the stub as it received it: the state, the script of faults and the log
  of calls are the same, so no read and no write was made.
\<close>

theorem Invoke_unknown_function:
  assumes \<open>function \<notin> set [''createWallet'', ''initWallet'', ''queryWallet'', ''readWallet'',
             ''transferFunds'', ''deleteWallet'', ''getWalletsByRange'']\<close>
  shows \<open>Invoke_coggia stub function args =
           (Error UnknownFunction ''Received Unknown function invocation'', stub) \<and>
         Invoke_halley stub function args =
           (Error UnknownFunction ''Received Unknown function invocation'', stub)\<close>
  using assms by (simp add: Invoke_coggia_def Invoke_halley_def)

theorem Invoke_unknown_function_witness:
  \<open>''mintCoins'' \<notin> set [''createWallet'', ''initWallet'', ''queryWallet'', ''readWallet'',
             ''transferFunds'', ''deleteWallet'', ''getWalletsByRange''] \<and>
   Invoke_coggia \<lparr>kv = [(''w1'', ''{}'')], faults = [Some ''down''], calls = []\<rparr> ''mintCoins'' [''w1''] =
     (Error UnknownFunction ''Received Unknown function invocation'',
      \<lparr>kv = [(''w1'', ''{}'')], faults = [Some ''down''], calls = []\<rparr>) \<and>
   Invoke_halley \<lparr>kv = [(''w1'', ''{}'')], faults = [Some ''down''], calls = []\<rparr> ''mintCoins'' [''w1''] =
     (Error UnknownFunction ''Received Unknown function invocation'',
      \<lparr>kv = [(''w1'', ''{}'')], faults = [Some ''down''], calls = []\<rparr>)\<close>
  using Invoke_unknown_function [of \<open>''mintCoins''\<close>
      \<open>\<lparr>kv = [(''w1'', ''{}'')], faults = [Some ''down''], calls = []\<rparr>\<close> \<open>[''w1'']\<close>]
  by simp

section \<open>Deleting a wallet\<close>

text \<open>
  C9. \<open>deleteWallet\<close> with at least one argument, the first being \<open>wid\<close>. When the
  store does not fault, the answer is a success whether or not a record existed, the
  record at \<open>wid\<close> is gone, so that a read of \<open>wid\<close> (\<open>queryWallet\<close> or
  \<open>readWallet\<close>) answers \<open>NotFoundError\<close>, and every other key keeps its value; in
  particular the index entry that \<open>initWallet\<close> builds for \<open>wid\<close>, whatever the
  balance, is left as it was. When the store faults, the answer is a \<open>StoreError\<close> and
  the state is unchanged. There is no other outcome.
\<close>

theorem deleteWallet_frame:
  assumes \<open>args = wid # rest\<close>
  shows \<open>(next_fault stub = None \<longrightarrow>
            fst (deleteWallet stub args) = Success None \<and>
            map_of (kv (snd (deleteWallet stub args))) wid = None \<and>
            (\<forall>k. k \<noteq> wid \<longrightarrow> map_of (kv (snd (deleteWallet stub args))) k = map_of (kv stub) k) \<and>
            (\<forall>b key. CreateCompositeKey ''address~balance'' [wid, b] = Inr key \<longrightarrow>
               map_of (kv (snd (deleteWallet stub args))) key = map_of (kv stub) key) \<and>
            (\<forall>stub2. kv stub2 = kv (snd (deleteWallet stub args)) \<and> next_fault stub2 = None \<longrightarrow>
               fst (queryWallet stub2 [wid]) =
                 Error NotFoundError (''{"Error":"Wallet does not exist: '' @ wid @ ''"}'') \<and>
               fst (readWallet stub2 [wid]) =
                 Error NotFoundError (''{"Error":"Wallet does not exist: '' @ wid @ ''"}''))) \<and>
         (\<forall>e. next_fault stub = Some e \<longrightarrow>
            fst (deleteWallet stub args) = Error StoreError ''Failed to delete state'' \<and>
            kv (snd (deleteWallet stub args)) = kv stub)\<close>
proof -
  have del: \<open>deleteWallet stub args =
      (case DelState wid stub of
         (Some e, stub1) \<Rightarrow> (Error StoreError ''Failed to delete state'', stub1)
       | (None, stub1) \<Rightarrow> (Success None, stub1))\<close>
    using assms by (simp add: deleteWallet_def)
  have ok: \<open>fst (deleteWallet stub args) = Success None \<and>
      kv (snd (deleteWallet stub args)) = AList.delete wid (kv stub)\<close>
    if \<open>next_fault stub = None\<close>
    using that by (simp add: del DelState_def tick_def)
  have bad: \<open>fst (deleteWallet stub args) = Error StoreError ''Failed to delete state'' \<and>
      kv (snd (deleteWallet stub args)) = kv stub\<close>
    if \<open>next_fault stub = Some e\<close> for e
    using that by (simp add: del DelState_def tick_def)
  have gone: \<open>map_of (AList.delete wid (kv stub)) wid = None\<close>
    by (simp add: delete_conv')
  have others: \<open>map_of (AList.delete wid (kv stub)) k = map_of (kv stub) k\<close> if \<open>k \<noteq> wid\<close> for k
    using that by (simp add: delete_conv')
  have idx: \<open>map_of (AList.delete wid (kv stub)) key = map_of (kv stub) key\<close>
    if \<open>CreateCompositeKey ''address~balance'' [wid, b] = Inr key\<close> for b key
    using index_key_differs [OF that] others by blast
  have rd: \<open>fst (queryWallet stub2 [wid]) =
        Error NotFoundError (''{"Error":"Wallet does not exist: '' @ wid @ ''"}'') \<and>
      fst (readWallet stub2 [wid]) =
        Error NotFoundError (''{"Error":"Wallet does not exist: '' @ wid @ ''"}'')\<close>
    if \<open>kv stub2 = AList.delete wid (kv stub)\<close> \<open>next_fault stub2 = None\<close> for stub2
    using that gone by (simp add: queryWallet_def readWallet_def GetState_def tick_def)
  show ?thesis
    using ok bad gone others idx rd by (metis (no_types, lifting))
qed

theorem deleteWallet_frame_witness:
  \<open>fst (deleteWallet coggia_ledger [''b'']) = Success None \<and>
   map_of (kv (snd (deleteWallet coggia_ledger [''b'']))) ''b'' = None \<and>
   map_of (kv (snd (deleteWallet coggia_ledger [''b'']))) (index_key ''b'' ''5'') = Some [CHR 0x00] \<and>
   fst (readWallet (snd (deleteWallet coggia_ledger [''b''])) [''b'']) =
     Error NotFoundError ''{"Error":"Wallet does not exist: b"}'' \<and>
   fst (deleteWallet empty_ledger [''b'']) = Success None \<and>
   fst (deleteWallet (with_faults [Some ''down''] coggia_ledger) [''b'']) =
     Error StoreError ''Failed to delete state'' \<and>
   kv (snd (deleteWallet (with_faults [Some ''down''] coggia_ledger) [''b''])) = kv coggia_ledger\<close>
proof -
  have args: \<open>[''b''] = ''b'' # []\<close> by simp
  have nf: \<open>next_fault coggia_ledger = None\<close>
    by (simp add: next_fault_def coggia_ledger_def)
  have nf0: \<open>next_fault empty_ledger = None\<close>
    by (simp add: next_fault_def empty_ledger_def)
  have nf2: \<open>next_fault (snd (deleteWallet coggia_ledger [''b''])) = None\<close>
    by code_simp
  have f: \<open>next_fault (with_faults [Some ''down''] coggia_ledger) = Some ''down''\<close>
    by (simp add: next_fault_def with_faults_def)
  have ck: \<open>CreateCompositeKey ''address~balance'' [''b'', ''5''] = Inr (index_key ''b'' ''5'')\<close>
    by code_simp
  have old: \<open>map_of (kv coggia_ledger) (index_key ''b'' ''5'') = Some [CHR 0x00]\<close>
    by code_simp
  have msg: \<open>''{"Error":"Wallet does not exist: '' @ ''b'' @ ''"}'' = ''{"Error":"Wallet does not exist: b"}''\<close>
    by simp
  have kvf: \<open>kv (with_faults [Some ''down''] coggia_ledger) = kv coggia_ledger\<close>
    by (simp add: with_faults_def)
  show ?thesis
    using deleteWallet_frame [OF args, of coggia_ledger]
      deleteWallet_frame [OF args, of empty_ledger]
      deleteWallet_frame [OF args, of \<open>with_faults [Some ''down''] coggia_ledger\<close>]
      nf nf0 nf2 f ck old msg kvf
    by metis
qed

section \<open>Creating a wallet\<close>

lemma kv_PutState_other:
  \<open>k' \<noteq> k \<Longrightarrow> map_of (kv (snd (PutState k v s))) k' = map_of (kv s) k'\<close>
  by (simp add: PutState_def tick_def update_conv' split: option.splits)

lemma kv_PutState_fault:
  \<open>fst (PutState k v s) = Some e \<Longrightarrow> kv (snd (PutState k v s)) = kv s\<close>
  by (simp add: PutState_def tick_def split: option.splits)

text \<open>
  \<open>initWallet\<close> makes no existence check: when its first write does not fault, the
  record at the address is the encoding of the new wallet, whatever was there before,
  and whatever happens to the index entry afterwards.
\<close>

lemma initWallet_replaces:
  assumes \<open>wid \<noteq> []\<close> \<open>next_fault stub = None\<close>
  shows \<open>map_of (kv (snd (initWallet stub [wid, b]))) wid =
           Some (Marshal_coggia \<lparr>Address = wid, Balance = fst (Atoi b)\<rparr>) \<and>
         (\<forall>m. fst (initWallet stub [wid, b]) \<noteq> Error ConflictError m)\<close>
proof -
  let ?w = \<open>\<lparr>Address = wid, Balance = fst (Atoi b)\<rparr>\<close>
  let ?s1 = \<open>stub\<lparr>faults := tl (faults stub), calls := calls stub @ [CPut wid (Marshal_coggia ?w)],
                 kv := AList.update wid (Marshal_coggia ?w) (kv stub)\<rparr>\<close>
  have put: \<open>PutState wid (Marshal_coggia ?w) stub = (None, ?s1)\<close>
    using assms(2) by (simp add: PutState_def tick_def)
  have at1: \<open>map_of (kv ?s1) wid = Some (Marshal_coggia ?w)\<close>
    by (simp add: update_conv')
  show ?thesis
  proof (cases \<open>CreateCompositeKey ''address~balance'' [wid, Itoa (fst (Atoi b))]\<close>)
    case (Inl e)
    then show ?thesis
      using assms(1) put at1 by (simp add: initWallet_def Let_def)
  next
    case (Inr key)
    then have \<open>wid \<noteq> key\<close>
      using index_key_differs by blast
    then have \<open>map_of (kv (snd (PutState key [CHR 0x00] ?s1))) wid = Some (Marshal_coggia ?w)\<close>
      using kv_PutState_other [of wid key] at1 by simp
    then show ?thesis
      using assms(1) put Inr by (simp add: initWallet_def Let_def)
  qed
qed

text \<open>
  C2, as stated: a second create invocation (\<open>createWallet\<close> or \<open>initWallet\<close>) on an
  id that already holds a record fails with \<open>ConflictError\<close> and leaves the record
  unchanged. \<open>initWallet\<close> of coggia.go does neither: on the ledger that already holds
  the wallet \<open>a\<close> with balance 100 it succeeds and the record now holds balance 7.
\<close>

theorem initWallet_overwrites_existing:
  \<open>map_of (kv coggia_ledger) ''a'' = Some ''{"address":"a","balance":100}'' \<and>
   fst (initWallet coggia_ledger [''a'', ''7'']) = Success None \<and>
   map_of (kv (snd (initWallet coggia_ledger [''a'', ''7'']))) ''a'' =
     Some ''{"address":"a","balance":7}''\<close>
  by code_simp

text \<open>
  C2, amended. Let a record exist at \<open>wid\<close> and let the store not fault on the next
  call. \<open>createWallet\<close> with that id, a balance that parses as an integer and any
  owner fails with \<open>ConflictError\<close> and leaves the state of the ledger unchanged.
  \<open>initWallet\<close> has no existence check: with a non-empty address it never answers
  \<open>ConflictError\<close>, and the record at the address becomes the encoding of the new
  wallet.
\<close>

theorem createWallet_conflict:
  assumes \<open>map_of (kv stub) wid = Some v\<close> and \<open>next_fault stub = None\<close>
  shows \<open>(snd (Atoi b) = None \<longrightarrow>
            fst (createWallet stub [wid, b, ownr]) =
              Error ConflictError (''This wallet already exists: '' @ wid) \<and>
            kv (snd (createWallet stub [wid, b, ownr])) = kv stub) \<and>
         (wid \<noteq> [] \<longrightarrow>
            (\<forall>m. fst (initWallet stub [wid, b]) \<noteq> Error ConflictError m) \<and>
            map_of (kv (snd (initWallet stub [wid, b]))) wid =
              Some (Marshal_coggia \<lparr>Address = wid, Balance = fst (Atoi b)\<rparr>))\<close>
proof -
  have \<open>fst (createWallet stub [wid, b, ownr]) =
          Error ConflictError (''This wallet already exists: '' @ wid) \<and>
        kv (snd (createWallet stub [wid, b, ownr])) = kv stub\<close>
    if \<open>snd (Atoi b) = None\<close>
    using that assms
    by (cases \<open>Atoi b\<close>) (simp add: createWallet_def Let_def GetState_def tick_def)
  then show ?thesis
    using initWallet_replaces [OF _ assms(2)] by blast
qed

theorem createWallet_conflict_witness:
  \<open>fst (createWallet halley_ledger [''w1'', ''7'', ''carol'']) =
     Error ConflictError ''This wallet already exists: w1'' \<and>
   kv (snd (createWallet halley_ledger [''w1'', ''7'', ''carol''])) = kv halley_ledger \<and>
   map_of (kv (snd (initWallet halley_ledger [''w1'', ''7'']))) ''w1'' =
     Some ''{"address":"w1","balance":7}''\<close>
proof -
  have ex: \<open>map_of (kv halley_ledger) ''w1'' = Some ''{}''\<close>
    by (simp add: halley_ledger_def)
  have nf: \<open>next_fault halley_ledger = None\<close>
    by (simp add: next_fault_def halley_ledger_def)
  have num: \<open>snd (Atoi ''7'') = None\<close>
    by code_simp
  have ne: \<open>''w1'' \<noteq> []\<close>
    by simp
  have msg: \<open>''This wallet already exists: '' @ ''w1'' = ''This wallet already exists: w1''\<close>
    by simp
  have enc: \<open>Marshal_coggia \<lparr>Address = ''w1'', Balance = fst (Atoi ''7'')\<rparr> = ''{"address":"w1","balance":7}''\<close>
    by code_simp
  show ?thesis
    using createWallet_conflict [OF ex nf, of \<open>''7''\<close> \<open>''carol''\<close>] num ne msg enc
    by metis
qed

text \<open>
  C3. After \<open>createWallet("w1", 100, "alice")\<close> succeeds, the stored bytes should decode
  to the wallet with id \<open>w1\<close>, balance 100 and owner \<open>alice\<close>. The fields of the
  Halley \<^verbatim>\<open>Wallet\<close> are not exported, so the record stored is the empty object; it
  decodes to the zero wallet, and \<open>queryWallet\<close> returns that empty object in its
  envelope.
\<close>

theorem createWallet_stores_empty_object:
  \<open>createWallet empty_ledger [''w1'', ''100'', ''alice''] =
     (Success None, \<lparr>kv = [(''w1'', ''{}'')], faults = [], calls = [CGet ''w1'', CPut ''w1'' ''{}'']\<rparr>) \<and>
   Unmarshal_halley ''{}'' = Inr \<lparr>wallet_id = [], balance = 0, owner = []\<rparr> \<and>
   fst (queryWallet (snd (createWallet empty_ledger [''w1'', ''100'', ''alice''])) [''w1'']) =
     Success (Some ''{"ID":"w1","RESULT":"{}"}'')\<close>
  by code_simp

text \<open>
  The first write of \<open>initWallet\<close> is checked: a fault there is answered with a
  \<open>StoreError\<close> carrying the message of the fault, and nothing is written.
\<close>

lemma initWallet_record_put_fault:
  assumes \<open>length args = 2\<close> \<open>args ! 0 \<noteq> []\<close> \<open>next_fault stub = Some e\<close>
  shows \<open>fst (initWallet stub args) = Error StoreError e \<and> kv (snd (initWallet stub args)) = kv stub\<close>
  using assms by (simp add: initWallet_def Let_def PutState_def tick_def)

text \<open>
  C8. Every fault of a write made by a create invocation should surface as a
  \<open>StoreError\<close>. In \<open>initWallet\<close> the result of the second \<open>PutState\<close>, the one
  of the index entry, is dropped: when the first write goes through and the second
  faults, the answer is a success, the wallet record is there and the index entry is
  not.
\<close>

theorem initWallet_index_put_fault_ignored:
  \<open>fst (initWallet (with_faults [None, Some ''ledger unavailable''] empty_ledger) [''w1'', ''100''])
     = Success None \<and>
   kv (snd (initWallet (with_faults [None, Some ''ledger unavailable''] empty_ledger) [''w1'', ''100'']))
     = [(''w1'', ''{"address":"w1","balance":100}'')] \<and>
   calls (snd (initWallet (with_faults [None, Some ''ledger unavailable''] empty_ledger) [''w1'', ''100'']))
     = [CPut ''w1'' ''{"address":"w1","balance":100}'', CPut (index_key ''w1'' ''100'') [CHR 0x00]]\<close>
  by code_simp

section \<open>Transfers: failures\<close>

text \<open>
  In coggia.go a transfer between two wallets of which one is missing fails, on a store
  that does not fault, with \<open>NotFoundError\<close>, and the ledger state is unchanged. In the
  Halley contract a missing sending wallet is reported in the same way.
\<close>

lemma transferFunds_halley_missing_sender:
  \<open>fst (transferFunds_halley halley_ledger [''nonexistent'', ''w1'', ''10'']) =
     Error NotFoundError ''Wallet [FROM] does not exist''\<close>
  by code_simp

lemma transferFunds_coggia_not_found:
  assumes \<open>args = from # to # rest'\<close> \<open>rest' \<noteq> []\<close>
    and \<open>map_of (kv stub) from = None \<or> map_of (kv stub) to = None\<close>
    and \<open>faults stub = []\<close>
  shows \<open>fst (transferFunds_coggia stub args) = Error NotFoundError ''Wallet 1 doesn't exist'' \<and>
         kv (snd (transferFunds_coggia stub args)) = kv stub\<close>
  using assms
  by (cases rest') (auto simp add: transferFunds_coggia_def Let_def GetState_def tick_def next_fault_def
      split: option.splits)

text \<open>
  C4. A transfer of which the sending or the receiving wallet has no record should
  fail with \<open>NotFoundError\<close>. In the Halley contract the test after the read of the
  receiving wallet looks at the bytes of the sending wallet again; with the wallet
  \<open>w1\<close> present and the receiving wallet absent, the absent bytes reach the decoder
  and the answer is the decoding failure.
\<close>

theorem transferFunds_halley_missing_receiver:
  \<open>fst (transferFunds_halley halley_ledger [''w1'', ''nonexistent'', ''10'']) =
     Error DecodeError ''Failed to unmarshal wallet'' \<and>
   map_of (kv halley_ledger) ''nonexistent'' = None\<close>
  by code_simp

text \<open>
  C5, as stated: whenever the third argument is not a decimal integer,
  \<open>transferFunds\<close> fails with \<open>ValidationError\<close>. The Halley contract parses the
  amount only after it has read and decoded both wallets, so a missing sending wallet is
  reported first; coggia.go drops the error of \<open>Atoi\<close> and goes on with the value 0.
\<close>

theorem transferFunds_bad_amount_counterexample:
  \<open>snd (Atoi ''abc'') = Some ErrSyntax \<and>
   fst (transferFunds_halley halley_ledger [''nonexistent'', ''w1'', ''abc'']) =
     Error NotFoundError ''Wallet [FROM] does not exist'' \<and>
   fst (transferFunds_coggia coggia_ledger [''a'', ''b'', ''abc'']) = Success None\<close>
  by code_simp

text \<open>
  C5, amended, for the Halley contract, whose \<open>transferFunds\<close> checks the amount. For
  every argument list of at least three elements whose third is not a decimal integer of
  64 bits, the answer is an error and the state of the ledger is unchanged. Which error
  it is follows the order of the steps of the handler:
  \<^item> \<open>StoreError\<close>, "Failed to get [FROM] Wallet", when the read of the sending wallet
    faults;
  \<^item> \<open>NotFoundError\<close>, "Wallet [FROM] does not exist", when that read does not fault
    and the sending wallet has no record;
  \<^item> \<open>StoreError\<close>, "Failed to get [TO] Wallet", when the sending wallet has a record
    and the read of the receiving wallet faults;
  \<^item> \<open>DecodeError\<close>, "Failed to unmarshal wallet", when neither read faults and the
    record of the sending wallet does not decode, or it decodes and the receiving wallet
    has a record that does not decode;
  \<^item> \<open>ValidationError\<close>, "Failed to parse into Integer", when neither read faults and
    both wallets have records that decode.

  The second read is the next call after the first, so its outcome is the head of what
  is left of the planned outcomes. The examples that follow the theorem take each branch
  in turn.
\<close>

theorem transferFunds_halley_bad_amount:
  assumes \<open>args = from # to # amount # rest\<close> and \<open>snd (Atoi amount) \<noteq> None\<close>
  shows \<open>(\<exists>k m. fst (transferFunds_halley stub args) = Error k m) \<and>
         kv (snd (transferFunds_halley stub args)) = kv stub \<and>
         ((\<forall>f \<in> set (take 2 (faults stub)). f = None) \<and>
          (\<exists>bf bt wf wt. map_of (kv stub) from = Some bf \<and> map_of (kv stub) to = Some bt \<and>
             Unmarshal_halley bf = Inr wf \<and> Unmarshal_halley bt = Inr wt) \<longrightarrow>
          fst (transferFunds_halley stub args) =
            Error ValidationError ''Failed to parse into Integer'') \<and>
         (next_fault stub \<noteq> None \<longrightarrow>
          fst (transferFunds_halley stub args) = Error StoreError ''Failed to get [FROM] Wallet'') \<and>
         (next_fault stub = None \<and> map_of (kv stub) from = None \<longrightarrow>
          fst (transferFunds_halley stub args) = Error NotFoundError ''Wallet [FROM] does not exist'') \<and>
         (next_fault stub = None \<and> map_of (kv stub) from \<noteq> None \<and>
          next_fault (with_faults (tl (faults stub)) stub) \<noteq> None \<longrightarrow>
          fst (transferFunds_halley stub args) = Error StoreError ''Failed to get [TO] Wallet'') \<and>
         (next_fault stub = None \<and> next_fault (with_faults (tl (faults stub)) stub) = None \<and>
          (\<exists>bf e. map_of (kv stub) from = Some bf \<and> Unmarshal_halley bf = Inl e) \<longrightarrow>
          fst (transferFunds_halley stub args) = Error DecodeError ''Failed to unmarshal wallet'') \<and>
         (next_fault stub = None \<and> next_fault (with_faults (tl (faults stub)) stub) = None \<and>
          (\<exists>bf wf bt e. map_of (kv stub) from = Some bf \<and> Unmarshal_halley bf = Inr wf \<and>
             map_of (kv stub) to = Some bt \<and> Unmarshal_halley bt = Inl e) \<longrightarrow>
          fst (transferFunds_halley stub args) = Error DecodeError ''Failed to unmarshal wallet'')\<close>
proof -
  obtain n e where at: \<open>Atoi amount = (n, Some e)\<close>
    using assms(2) by (cases \<open>Atoi amount\<close>) auto
  have len: \<open>\<not> length args < 3\<close> \<open>args ! 0 = from\<close> \<open>args ! 1 = to\<close> \<open>args ! 2 = amount\<close>
    using assms(1) by simp_all
  have second: \<open>next_fault (stub\<lparr>faults := tl (faults stub), calls := c\<rparr>) =
      next_fault (with_faults (tl (faults stub)) stub)\<close> for c
    by (simp add: next_fault_def with_faults_def)
  have 1: \<open>\<exists>k m. fst (transferFunds_halley stub args) = Error k m\<close>
    unfolding transferFunds_halley_def len Let_def
    by (simp add: at len GetState_def tick_def split: option.splits sum.splits)
  have 2: \<open>kv (snd (transferFunds_halley stub args)) = kv stub\<close>
    unfolding transferFunds_halley_def len Let_def
    by (simp add: at len GetState_def tick_def split: option.splits sum.splits)
  have 3: \<open>fst (transferFunds_halley stub args) =
            Error ValidationError ''Failed to parse into Integer''\<close>
    if nf: \<open>\<forall>f \<in> set (take 2 (faults stub)). f = None\<close>
      and ex: \<open>map_of (kv stub) from = Some bf\<close> \<open>map_of (kv stub) to = Some bt\<close>
        \<open>Unmarshal_halley bf = Inr wf\<close> \<open>Unmarshal_halley bt = Inr wt\<close>
    for bf bt wf wt
  proof -
    have a: \<open>next_fault stub = None\<close>
      using nf by (cases \<open>faults stub\<close>) (auto simp: next_fault_def)
    have b: \<open>next_fault (stub\<lparr>faults := tl (faults stub), calls := calls stub @ [CGet from]\<rparr>) = None\<close>
      using nf by (cases \<open>faults stub\<close>; cases \<open>tl (faults stub)\<close>) (auto simp: next_fault_def)
    show ?thesis
      unfolding transferFunds_halley_def len Let_def
      using a b ex by (simp add: at len GetState_def tick_def nil_bytes_def)
  qed
  have 4: \<open>fst (transferFunds_halley stub args) = Error StoreError ''Failed to get [FROM] Wallet''\<close>
    if \<open>next_fault stub \<noteq> None\<close>
    unfolding transferFunds_halley_def len Let_def
    using that by (auto simp add: len GetState_def tick_def)
  have 5: \<open>fst (transferFunds_halley stub args) = Error NotFoundError ''Wallet [FROM] does not exist''\<close>
    if \<open>next_fault stub = None\<close> \<open>map_of (kv stub) from = None\<close>
    unfolding transferFunds_halley_def len Let_def
    using that by (simp add: len GetState_def tick_def)
  have 6: \<open>fst (transferFunds_halley stub args) = Error StoreError ''Failed to get [TO] Wallet''\<close>
    if \<open>next_fault stub = None\<close> \<open>map_of (kv stub) from \<noteq> None\<close>
      \<open>next_fault (with_faults (tl (faults stub)) stub) \<noteq> None\<close>
    unfolding transferFunds_halley_def len Let_def
    using that by (auto simp add: len GetState_def tick_def second)
  have 7: \<open>fst (transferFunds_halley stub args) = Error DecodeError ''Failed to unmarshal wallet''\<close>
    if \<open>next_fault stub = None\<close> \<open>next_fault (with_faults (tl (faults stub)) stub) = None\<close>
      \<open>map_of (kv stub) from = Some bf\<close> \<open>Unmarshal_halley bf = Inl e\<close> for bf e
    unfolding transferFunds_halley_def len Let_def
    using that by (simp add: len GetState_def tick_def second nil_bytes_def)
  have 8: \<open>fst (transferFunds_halley stub args) = Error DecodeError ''Failed to unmarshal wallet''\<close>
    if \<open>next_fault stub = None\<close> \<open>next_fault (with_faults (tl (faults stub)) stub) = None\<close>
      \<open>map_of (kv stub) from = Some bf\<close> \<open>Unmarshal_halley bf = Inr wf\<close>
      \<open>map_of (kv stub) to = Some bt\<close> \<open>Unmarshal_halley bt = Inl e\<close> for bf wf bt e
    unfolding transferFunds_halley_def len Let_def
    using that by (simp add: len GetState_def tick_def second nil_bytes_def)
  show ?thesis
  proof (intro conjI impI)
    show \<open>\<exists>k m. fst (transferFunds_halley stub args) = Error k m\<close> by (rule 1)
    show \<open>kv (snd (transferFunds_halley stub args)) = kv stub\<close> by (rule 2)
  qed (use 3 4 5 6 7 8 in blast)+
qed


theorem transferFunds_halley_bad_amount_witness:
  \<open>fst (transferFunds_halley halley_ledger [''w1'', ''w2'', ''abc'']) =
     Error ValidationError ''Failed to parse into Integer'' \<and>
   kv (snd (transferFunds_halley halley_ledger [''w1'', ''w2'', ''abc''])) = kv halley_ledger \<and>
   fst (transferFunds_halley (with_faults [Some ''down''] halley_ledger) [''w1'', ''w2'', ''abc'']) =
     Error StoreError ''Failed to get [FROM] Wallet'' \<and>
   fst (transferFunds_halley halley_ledger [''nonexistent'', ''w1'', ''abc'']) =
     Error NotFoundError ''Wallet [FROM] does not exist'' \<and>
   fst (transferFunds_halley (with_faults [None, Some ''down''] halley_ledger) [''w1'', ''w2'', ''abc'']) =
     Error StoreError ''Failed to get [TO] Wallet'' \<and>
   fst (transferFunds_halley corrupt_ledger [''torn'', ''w1'', ''abc'']) =
     Error DecodeError ''Failed to unmarshal wallet'' \<and>
   fst (transferFunds_halley corrupt_ledger [''w1'', ''list'', ''abc'']) =
     Error DecodeError ''Failed to unmarshal wallet''\<close>
proof -
  have bad: \<open>snd (Atoi ''abc'') \<noteq> None\<close>
    by code_simp
  have a12: \<open>[''w1'', ''w2'', ''abc''] = ''w1'' # ''w2'' # ''abc'' # []\<close>
    and an1: \<open>[''nonexistent'', ''w1'', ''abc''] = ''nonexistent'' # ''w1'' # ''abc'' # []\<close>
    and at1: \<open>[''torn'', ''w1'', ''abc''] = ''torn'' # ''w1'' # ''abc'' # []\<close>
    and a1l: \<open>[''w1'', ''list'', ''abc''] = ''w1'' # ''list'' # ''abc'' # []\<close>
    by simp_all
  have empty: \<open>Unmarshal_halley ''{}'' = Inr \<lparr>wallet_id = [], balance = 0, owner = []\<rparr>\<close>
    by code_simp
  have \<open>isl (Unmarshal_halley ''{"id":'')\<close>
    by code_simp
  then obtain e1 where torn: \<open>Unmarshal_halley ''{"id":'' = Inl e1\<close>
    by (cases \<open>Unmarshal_halley ''{"id":''\<close>) simp_all
  have \<open>isl (Unmarshal_halley ''[1]'')\<close>
    by code_simp
  then obtain e2 where list: \<open>Unmarshal_halley ''[1]'' = Inl e2\<close>
    by (cases \<open>Unmarshal_halley ''[1]''\<close>) simp_all
  have nf: \<open>\<forall>f \<in> set (take 2 (faults halley_ledger)). f = None\<close>
    by (simp add: halley_ledger_def)
  have ex: \<open>\<exists>bf bt wf wt. map_of (kv halley_ledger) ''w1'' = Some bf \<and>
      map_of (kv halley_ledger) ''w2'' = Some bt \<and>
      Unmarshal_halley bf = Inr wf \<and> Unmarshal_halley bt = Inr wt\<close>
  proof -
    have \<open>map_of (kv halley_ledger) ''w1'' = Some ''{}''\<close> \<open>map_of (kv halley_ledger) ''w2'' = Some ''{}''\<close>
      by (simp_all add: halley_ledger_def)
    with empty show ?thesis by blast
  qed
  have a: \<open>fst (transferFunds_halley halley_ledger [''w1'', ''w2'', ''abc'']) =
      Error ValidationError ''Failed to parse into Integer'' \<and>
    kv (snd (transferFunds_halley halley_ledger [''w1'', ''w2'', ''abc''])) = kv halley_ledger\<close>
    using transferFunds_halley_bad_amount [OF a12 bad, of halley_ledger] nf ex
    by blast
  have f1: \<open>next_fault (with_faults [Some ''down''] halley_ledger) \<noteq> None\<close>
    by (simp add: next_fault_def with_faults_def)
  have b: \<open>fst (transferFunds_halley (with_faults [Some ''down''] halley_ledger) [''w1'', ''w2'', ''abc'']) =
      Error StoreError ''Failed to get [FROM] Wallet''\<close>
    using transferFunds_halley_bad_amount
      [OF a12 bad, of \<open>with_faults [Some ''down''] halley_ledger\<close>] f1
    by blast
  have n0: \<open>next_fault halley_ledger = None\<close>
    by (simp add: next_fault_def halley_ledger_def)
  have m0: \<open>map_of (kv halley_ledger) ''nonexistent'' = None\<close>
    by (simp add: halley_ledger_def)
  have c: \<open>fst (transferFunds_halley halley_ledger [''nonexistent'', ''w1'', ''abc'']) =
      Error NotFoundError ''Wallet [FROM] does not exist''\<close>
    using transferFunds_halley_bad_amount
      [OF an1 bad, of halley_ledger] n0 m0
    by blast
  have f2: \<open>next_fault (with_faults [None, Some ''down''] halley_ledger) = None\<close>
    \<open>map_of (kv (with_faults [None, Some ''down''] halley_ledger)) ''w1'' \<noteq> None\<close>
    \<open>next_fault (with_faults (tl (faults (with_faults [None, Some ''down''] halley_ledger)))
       (with_faults [None, Some ''down''] halley_ledger)) \<noteq> None\<close>
    by (simp_all add: next_fault_def with_faults_def halley_ledger_def)
  have d: \<open>fst (transferFunds_halley (with_faults [None, Some ''down''] halley_ledger) [''w1'', ''w2'', ''abc'']) =
      Error StoreError ''Failed to get [TO] Wallet''\<close>
    using transferFunds_halley_bad_amount
      [OF a12 bad, of \<open>with_faults [None, Some ''down''] halley_ledger\<close>] f2
    by blast
  have n1: \<open>next_fault corrupt_ledger = None\<close>
    \<open>next_fault (with_faults (tl (faults corrupt_ledger)) corrupt_ledger) = None\<close>
    by (simp_all add: next_fault_def with_faults_def corrupt_ledger_def)
  have m1: \<open>map_of (kv corrupt_ledger) ''torn'' = Some ''{"id":''\<close>
    \<open>map_of (kv corrupt_ledger) ''w1'' = Some ''{}''\<close>
    \<open>map_of (kv corrupt_ledger) ''list'' = Some ''[1]''\<close>
    by (simp_all add: corrupt_ledger_def)
  have e: \<open>fst (transferFunds_halley corrupt_ledger [''torn'', ''w1'', ''abc'']) =
      Error DecodeError ''Failed to unmarshal wallet''\<close>
    using transferFunds_halley_bad_amount
      [OF at1 bad, of corrupt_ledger] n1 m1(1) torn
    by blast
  have f: \<open>fst (transferFunds_halley corrupt_ledger [''w1'', ''list'', ''abc'']) =
      Error DecodeError ''Failed to unmarshal wallet''\<close>
    using transferFunds_halley_bad_amount
      [OF a1l bad, of corrupt_ledger] n1 m1(2,3) empty list
    by blast
  show ?thesis
    using a b c d e f by blast
qed

section \<open>Range queries\<close>









section \<open>Decimal integers: reading what was written\<close>

text \<open>
  \<open>Itoa\<close> writes a 64-bit integer as a sign and decimal digits without a leading
  zero; \<open>ParseInt\<close> reads it back, and the scanner of JSON numbers takes exactly
  these bytes as one number literal.
\<close>

lemma digit_cases:
  assumes \<open>0 \<le> d\<close> \<open>d < 10\<close>
  shows \<open>d = 0 \<or> d = 1 \<or> d = 2 \<or> d = 3 \<or> d = 4 \<or> d = 5 \<or> d = 6 \<or> d = 7 \<or> d = 8 \<or> d = (9::int)\<close>
  using assms by arith

lemma digit_char_props:
  assumes \<open>0 \<le> d\<close> \<open>d < 10\<close>
  shows \<open>is_digit (digit_char d)\<close> and \<open>digit_val (digit_char d) = d\<close>
    and \<open>digit_char d = CHR ''0'' \<longleftrightarrow> d = 0\<close>
  using digit_cases [OF assms]
  by (auto simp: digit_char_def is_digit_def digit_val_def byte_def)

lemma digits_nonempty: \<open>digits n \<noteq> []\<close>
  by (subst digits.simps) simp

lemma digits_all_digit: \<open>0 \<le> n \<Longrightarrow> list_all is_digit (digits n)\<close>
proof (induction n rule: digits.induct)
  case (1 n)
  show ?case
  proof (cases \<open>n < 10\<close>)
    case True
    then show ?thesis
      using 1 by (subst digits.simps) (simp add: digit_char_props)
  next
    case False
    then have \<open>list_all is_digit (digits (n div 10))\<close>
      using 1 by simp
    moreover have \<open>is_digit (digit_char (n mod 10))\<close>
      by (simp add: digit_char_props)
    ultimately show ?thesis
      using False by (subst digits.simps) simp
  qed
qed

lemma digits_leading:
  \<open>0 \<le> n \<Longrightarrow> hd (digits n) = CHR ''0'' \<Longrightarrow> digits n = ''0''\<close>
proof (induction n rule: digits.induct)
  case (1 n)
  show ?case
  proof (cases \<open>n < 10\<close>)
    case True
    then have \<open>digits n = [digit_char n]\<close>
      by (subst digits.simps) simp
    then show ?thesis
      using 1 True by (simp add: digit_char_props)
  next
    case False
    then have d: \<open>digits n = digits (n div 10) @ [digit_char (n mod 10)]\<close>
      by (subst digits.simps) simp
    then have \<open>hd (digits (n div 10)) = CHR ''0''\<close>
      using 1(3) digits_nonempty [of \<open>n div 10\<close>] by simp
    then have \<open>digits (n div 10) = ''0''\<close>
      using 1 False by simp
    moreover have \<open>digits (n div 10) \<noteq> ''0''\<close>
    proof (cases \<open>n div 10 < 10\<close>)
      case True
      then have \<open>digits (n div 10) = [digit_char (n div 10)]\<close>
        by (subst digits.simps) simp
      moreover have \<open>n div 10 \<noteq> 0\<close> \<open>0 \<le> n div 10\<close>
        using False 1(2) by auto
      ultimately show ?thesis
        using True by (simp add: digit_char_props)
    next
      case False
      then have \<open>digits (n div 10) = digits (n div 10 div 10) @ [digit_char (n div 10 mod 10)]\<close>
        by (subst digits.simps) simp
      then have \<open>2 \<le> length (digits (n div 10))\<close>
        using digits_nonempty [of \<open>n div 10 div 10\<close>] by (cases \<open>digits (n div 10 div 10)\<close>) auto
      then show ?thesis by auto
    qed
    ultimately show ?thesis by simp
  qed
qed

lemma parse_uint_loop_append:
  \<open>parse_uint_loop a (xs @ ys) =
     (case parse_uint_loop a xs of (m, None) \<Rightarrow> parse_uint_loop m ys | (m, Some e) \<Rightarrow> (m, Some e))\<close>
  by (induction xs arbitrary: a) (auto simp: Let_def)

lemma parse_uint_loop_digits:
  \<open>0 \<le> n \<Longrightarrow> n \<le> maxUint64 \<Longrightarrow> parse_uint_loop 0 (digits n) = (n, None)\<close>
proof (induction n rule: digits.induct)
  case (1 n)
  show ?case
  proof (cases \<open>n < 10\<close>)
    case True
    then have \<open>digits n = [digit_char n]\<close>
      by (subst digits.simps) simp
    then show ?thesis
      using 1(2,3) True by (simp add: digit_char_props maxUint64_def)
  next
    case False
    then have d: \<open>digits n = digits (n div 10) @ [digit_char (n mod 10)]\<close>
      by (subst digits.simps) simp
    have \<open>parse_uint_loop 0 (digits (n div 10)) = (n div 10, None)\<close>
      using 1 False by simp
    moreover have \<open>\<not> n div 10 \<ge> maxUint64 div 10 + 1\<close>
      using 1(3) by (simp add: maxUint64_def)
    moreover have \<open>n div 10 * 10 + n mod 10 = n\<close>
      by simp
    ultimately show ?thesis
      using 1(3) by (simp add: d parse_uint_loop_append digit_char_props Let_def)
  qed
qed


lemma hd_digits_is_digit: \<open>0 \<le> n \<Longrightarrow> is_digit (hd (digits n))\<close>
  using digits_all_digit [of n] digits_nonempty [of n]
  by (cases \<open>digits n\<close>) auto

lemma is_digit_not_sign: \<open>is_digit c \<Longrightarrow> c \<noteq> CHR ''-'' \<and> c \<noteq> CHR ''+''\<close>
  by (auto simp: is_digit_def byte_def)

lemma ParseUint_digits:
  \<open>0 \<le> n \<Longrightarrow> n \<le> maxUint64 \<Longrightarrow> ParseUint (digits n) = (n, None)\<close>
  by (simp add: ParseUint_def digits_nonempty parse_uint_loop_digits)

lemma sint64_bounds:
  fixes i :: go_int
  shows \<open>- 9223372036854775808 \<le> sint i\<close> \<open>sint i < 9223372036854775808\<close>
  using sint_ge [of i] sint_lt [of i] by simp_all

lemma ParseInt_Itoa: \<open>ParseInt (Itoa i) = (i, None)\<close>
proof (cases \<open>sint i < 0\<close>)
  case True
  let ?n = \<open>- sint i\<close>
  have n: \<open>0 \<le> ?n\<close> \<open>?n \<le> maxUint64\<close> \<open>\<not> ?n > cutoff64\<close>
    using True sint64_bounds [of i] by (simp_all add: maxUint64_def cutoff64_def)
  have it: \<open>Itoa i = CHR ''-'' # digits ?n\<close>
    using True by (simp add: Itoa_def)
  have \<open>- (word_of_int ?n :: go_int) = i\<close>
    by simp
  then show ?thesis
    using n by (simp add: ParseInt_def it ParseUint_digits Let_def)
next
  case False
  let ?n = \<open>sint i\<close>
  have n: \<open>0 \<le> ?n\<close> \<open>?n \<le> maxUint64\<close> \<open>\<not> ?n \<ge> cutoff64\<close>
    using False sint64_bounds [of i] by (simp_all add: maxUint64_def cutoff64_def)
  have it: \<open>Itoa i = digits ?n\<close>
    using False by (simp add: Itoa_def)
  have hd: \<open>hd (digits ?n) \<noteq> CHR ''-''\<close> \<open>hd (digits ?n) \<noteq> CHR ''+''\<close>
    using hd_digits_is_digit [OF n(1)] is_digit_not_sign by blast+
  show ?thesis
    using n hd by (simp add: ParseInt_def it ParseUint_digits Let_def digits_nonempty)
qed

lemma takeWhile_digits_then:
  assumes \<open>list_all is_digit ds\<close> \<open>\<not> is_digit c\<close>
  shows \<open>takeWhile is_digit (ds @ c # rest) = ds\<close> \<open>dropWhile is_digit (ds @ c # rest) = c # rest\<close>
  using assms by (induction ds) auto

lemma scan_int_part_digits:
  assumes \<open>0 \<le> n\<close> \<open>\<not> is_digit c\<close>
  shows \<open>scan_int_part (digits n @ c # rest) = Some (digits n, c # rest)\<close>
proof -
  obtain d ds where ds: \<open>digits n = d # ds\<close>
    using digits_nonempty [of n] by (cases \<open>digits n\<close>) auto
  have d: \<open>is_digit d\<close>
    using hd_digits_is_digit [OF assms(1)] ds by simp
  show ?thesis
  proof (cases \<open>d = CHR ''0''\<close>)
    case True
    then have \<open>digits n = ''0''\<close>
      using digits_leading [OF assms(1)] ds by simp
    then show ?thesis
      by (simp add: scan_int_part_def is_digit_def byte_def)
  next
    case False
    have \<open>takeWhile is_digit (digits n @ c # rest) = digits n\<close>
      \<open>dropWhile is_digit (digits n @ c # rest) = c # rest\<close>
      using takeWhile_digits_then [OF digits_all_digit [OF assms(1)] assms(2)] by simp_all
    then show ?thesis
      using False d unfolding scan_int_part_def ds by simp
  qed
qed

lemma scan_number_Itoa:
  \<open>scan_number (Itoa i @ CHR ''}'' # rest) = Some (Itoa i, CHR ''}'' # rest)\<close>
proof -
  have nd: \<open>\<not> is_digit (CHR ''}'')\<close>
    by (simp add: is_digit_def byte_def)
  have tail: \<open>scan_frac (CHR ''}'' # rest) = Some ([], CHR ''}'' # rest)\<close>
    \<open>scan_exp (CHR ''}'' # rest) = Some ([], CHR ''}'' # rest)\<close>
    by (simp_all add: scan_frac_def scan_exp_def)
  show ?thesis
  proof (cases \<open>sint i < 0\<close>)
    case True
    then have it: \<open>Itoa i = CHR ''-'' # digits (- sint i)\<close>
      by (simp add: Itoa_def)
    have \<open>scan_int_part (digits (- sint i) @ CHR ''}'' # rest) = Some (digits (- sint i), CHR ''}'' # rest)\<close>
      using True nd by (intro scan_int_part_digits) simp_all
    then show ?thesis
      by (simp add: scan_number_def it tail)
  next
    case False
    then have it: \<open>Itoa i = digits (sint i)\<close>
      by (simp add: Itoa_def)
    obtain d ds where ds: \<open>digits (sint i) = d # ds\<close>
      using digits_nonempty [of \<open>sint i\<close>] by (cases \<open>digits (sint i)\<close>) auto
    have \<open>d \<noteq> CHR ''-''\<close>
      using hd_digits_is_digit [of \<open>sint i\<close>] False ds is_digit_not_sign by force
    moreover have \<open>scan_int_part (digits (sint i) @ CHR ''}'' # rest) = Some (digits (sint i), CHR ''}'' # rest)\<close>
      using False nd by (intro scan_int_part_digits) simp_all
    ultimately show ?thesis
      unfolding scan_number_def it by (simp add: ds tail)
  qed
qed

section \<open>Strings: scanning what was written\<close>

text \<open>
  Whatever the bytes of a Go string, the scanner of string literals reads the body the
  encoder wrote for it up to the closing quote and no further.
\<close>

lemma byte_range: \<open>0 \<le> byte c\<close> \<open>byte c < 256\<close>
proof -
  have \<open>byte c = int (of_char c)\<close>
    by (simp add: byte_def of_nat_of_char)
  moreover have \<open>(of_char c :: nat) < 256\<close>
    by simp
  ultimately show \<open>0 \<le> byte c\<close> \<open>byte c < 256\<close>
    by simp_all
qed

lemma byte_quotes: \<open>byte dq = 34\<close> \<open>byte bsl = 92\<close>
  by (simp_all add: byte_def dq_def bsl_def)

lemma scan_plain:
  assumes \<open>32 \<le> byte c\<close> \<open>c \<noteq> dq\<close> \<open>c \<noteq> bsl\<close>
  shows \<open>scan_string (c # t) = map_option (\<lambda>(b, r). (c # b, r)) (scan_string t)\<close>
  using assms by simp

lemma scan_plain_list:
  assumes \<open>\<forall>c \<in> set xs. 32 \<le> byte c \<and> c \<noteq> dq \<and> c \<noteq> bsl\<close>
  shows \<open>scan_string (xs @ t) = map_option (\<lambda>(b, r). (xs @ b, r)) (scan_string t)\<close>
  using assms
proof (induction xs)
  case Nil
  show ?case by (simp add: option.map_ident)
next
  case (Cons x xs)
  then show ?case
    by (simp add: option.map_comp comp_def case_prod_beta)
qed

lemma high_byte_plain: \<open>128 \<le> byte c \<Longrightarrow> 32 \<le> byte c \<and> c \<noteq> dq \<and> c \<noteq> bsl\<close>
  using byte_quotes by auto

lemma hex_cases:
  assumes \<open>0 \<le> d\<close> \<open>d < 16\<close>
  shows \<open>d = 0 \<or> d = 1 \<or> d = 2 \<or> d = 3 \<or> d = 4 \<or> d = 5 \<or> d = 6 \<or> d = 7 \<or> d = 8 \<or> d = 9
     \<or> d = 10 \<or> d = 11 \<or> d = 12 \<or> d = 13 \<or> d = 14 \<or> d = (15::int)\<close>
  using assms by arith

lemma is_hex_hex_char: \<open>0 \<le> d \<Longrightarrow> d < 16 \<Longrightarrow> is_hex (hex_char d)\<close>
  using hex_cases [of d]
  by (auto simp: hex_char_def is_hex_def is_digit_def byte_def)

lemma scan_escape_ascii:
  \<open>scan_string (escape_ascii c @ t) = map_option (\<lambda>(b, r). (escape_ascii c @ b, r)) (scan_string t)\<close>
proof -
  have h: \<open>is_hex (hex_char (byte c div 16))\<close> \<open>is_hex (hex_char (byte c mod 16))\<close>
    using byte_range [of c] by (auto intro!: is_hex_hex_char)
  have z: \<open>is_hex (CHR ''0'')\<close>
    by (simp add: is_hex_def is_digit_def byte_def)
  have u: \<open>\<not> is_escapable (CHR ''u'')\<close>
    by (simp add: is_escapable_def dq_def bsl_def)
  have e: \<open>is_escapable dq\<close> \<open>is_escapable bsl\<close> \<open>is_escapable (CHR ''n'')\<close>
    \<open>is_escapable (CHR ''r'')\<close> \<open>is_escapable (CHR ''t'')\<close>
    by (simp_all add: is_escapable_def)
  have q: \<open>bsl \<noteq> dq\<close>
    by (simp add: dq_def bsl_def)
  show ?thesis
    using h z u e q by (simp add: escape_ascii_def)
qed

lemma decode_rune_tail_high:
  assumes \<open>128 \<le> byte c\<close> \<open>decode_rune (c # cs) = (r, n)\<close> \<open>\<not> (r = RuneError \<and> n = 1)\<close>
  shows \<open>\<forall>x \<in> set (take (n - 1) cs). 128 \<le> byte x\<close>
  using assms
  by (auto simp: decode_rune_def cont_def second_lo_def Let_def
      split: list.splits if_splits)

lemma scan_encoded_string:
  \<open>scan_string (encode_string_body s @ dq # rest) = Some (encode_string_body s, rest)\<close>
proof (induction \<open>length s\<close> arbitrary: s rule: less_induct)
  case less
  show ?case
  proof (cases s)
    case Nil
    then show ?thesis by simp
  next
    case (Cons c cs)
    have ih: \<open>scan_string (encode_string_body t @ dq # rest) = Some (encode_string_body t, rest)\<close>
      if \<open>length t \<le> length cs\<close> for t
      using less [of t] that Cons by simp
    show ?thesis
    proof (cases \<open>byte c < 128\<close>)
      case True
      show ?thesis
      proof (cases \<open>html_safe c\<close>)
        case safe: True
        then have \<open>32 \<le> byte c\<close> \<open>c \<noteq> dq\<close> \<open>c \<noteq> bsl\<close>
          by (simp_all add: html_safe_def)
        then show ?thesis
          using True safe ih [of cs] by (simp add: Cons)
      next
        case False
        then show ?thesis
          using True ih [of cs] scan_escape_ascii [of c \<open>encode_string_body cs @ dq # rest\<close>]
          by (simp add: Cons)
      qed
    next
      case False
      obtain r n where dr: \<open>decode_rune (c # cs) = (r, n)\<close>
        by (cases \<open>decode_rune (c # cs)\<close>)
      have hi: \<open>128 \<le> byte c\<close>
        using False by simp
      consider (bad) \<open>r = RuneError \<and> n = 1\<close>
        | (sep) \<open>\<not> (r = RuneError \<and> n = 1)\<close> \<open>r = 8232 \<or> r = 8233\<close>
        | (plain) \<open>\<not> (r = RuneError \<and> n = 1)\<close> \<open>\<not> (r = 8232 \<or> r = 8233)\<close>
        by blast
      then show ?thesis
      proof cases
        case bad
        have \<open>scan_string (bsl # ''ufffd'' @ t) = map_option (\<lambda>(b, u). (bsl # ''ufffd'' @ b, u)) (scan_string t)\<close> for t
          by (simp add: is_escapable_def is_hex_def is_digit_def byte_def dq_def bsl_def)
        then show ?thesis
          using False bad dr ih [of cs] by (simp add: Cons del: scan_string.simps)
      next
        case sep
        have h: \<open>is_hex (hex_char (r mod 16))\<close>
          using sep(2) by (auto simp: hex_char_def is_hex_def is_digit_def byte_def)
        have \<open>scan_string (bsl # ''u202'' @ [hex_char (r mod 16)] @ t) =
            map_option (\<lambda>(b, u). (bsl # ''u202'' @ [hex_char (r mod 16)] @ b, u)) (scan_string t)\<close> for t
          using h by (simp add: is_escapable_def is_hex_def is_digit_def byte_def dq_def bsl_def)
        moreover have \<open>r \<noteq> RuneError\<close>
          using sep(2) by (auto simp: RuneError_def)
        ultimately show ?thesis
          using False sep(2) dr ih [of \<open>drop (n - 1) cs\<close>]
          by (auto simp add: Cons simp del: scan_string.simps)
      next
        case plain
        have \<open>\<forall>x \<in> set (c # take (n - 1) cs). 32 \<le> byte x \<and> x \<noteq> dq \<and> x \<noteq> bsl\<close>
          using decode_rune_tail_high [OF hi dr plain(1)] hi high_byte_plain by auto
        then have \<open>scan_string ((c # take (n - 1) cs) @ t) =
            map_option (\<lambda>(b, u). ((c # take (n - 1) cs) @ b, u)) (scan_string t)\<close> for t
          by (rule scan_plain_list)
        then show ?thesis
          using False plain dr ih [of \<open>drop (n - 1) cs\<close>]
          by (auto simp add: Cons simp del: scan_string.simps)
      qed
    qed
  qed
qed

section \<open>Wallets: decoding what was encoded\<close>

text \<open>
  The decoder of coggia.go reads the encoding of a wallet back with the same balance
  (and with the address that the string decoder gives for the encoded address).
\<close>

lemma Itoa_head:
  \<open>\<exists>c cs. Itoa i = c # cs \<and> (c = CHR ''-'' \<or> is_digit c)\<close>
proof (cases \<open>sint i < 0\<close>)
  case True
  then show ?thesis by (simp add: Itoa_def)
next
  case False
  then have \<open>is_digit (hd (digits (sint i)))\<close>
    by (intro hd_digits_is_digit) simp
  then show ?thesis
    using False digits_nonempty [of \<open>sint i\<close>]
    by (cases \<open>digits (sint i)\<close>) (auto simp: Itoa_def)
qed

lemma parse_value_number:
  assumes \<open>c = CHR ''-'' \<or> is_digit c\<close>
  shows \<open>parse_value (Suc f) (c # cs) =
           map_option (\<lambda>(lit, r). (JNum lit, r)) (scan_number (c # cs))\<close>
proof -
  have \<open>c \<noteq> CHR ''{''\<close> \<open>c \<noteq> CHR ''[''\<close> \<open>c \<noteq> dq\<close>
    using assms by (auto simp: is_digit_def byte_def dq_def)
  then show ?thesis
    using assms by simp
qed

lemma parse_value_Itoa:
  \<open>parse_value (Suc f) (Itoa i @ CHR ''}'' # rest) = Some (JNum (Itoa i), CHR ''}'' # rest)\<close>
proof -
  obtain c cs where it: \<open>Itoa i = c # cs\<close> \<open>c = CHR ''-'' \<or> is_digit c\<close>
    using Itoa_head by blast
  have \<open>parse_value (Suc f) ((c # cs) @ CHR ''}'' # rest) =
      map_option (\<lambda>(lit, r). (JNum lit, r)) (scan_number ((c # cs) @ CHR ''}'' # rest))\<close>
    using parse_value_number [OF it(2)] by simp
  then show ?thesis
    using scan_number_Itoa [of i rest] by (simp add: it(1))
qed

lemma unquote_names: \<open>unquote ''address'' = ''address''\<close> \<open>unquote ''balance'' = ''balance''\<close>
  by code_simp+

lemma skip_ws_Itoa: \<open>skip_ws (Itoa b @ t) = Itoa b @ t\<close>
proof -
  obtain c cs where it: \<open>Itoa b = c # cs\<close> \<open>c = CHR ''-'' \<or> is_digit c\<close>
    using Itoa_head by blast
  then have \<open>\<not> is_ws c\<close>
    by (auto simp: is_ws_def is_digit_def byte_def)
  then show ?thesis
    by (simp add: it(1) skip_ws_def)
qed

lemma member_balance:
  \<open>parse_members (Suc (Suc f)) (dq # ''balance'' @ dq # CHR '':'' # Itoa b @ ''}'') =
      Some ([(''balance'', JNum (Itoa b))], [])\<close>
proof -
  have key2: \<open>scan_string (''balance'' @ dq # t) = Some (''balance'', t)\<close> for t
    by (simp add: dq_def bsl_def byte_def)
  have ws: \<open>skip_ws (CHR '':'' # t) = CHR '':'' # t\<close> \<open>skip_ws (CHR ''}'' # t) = CHR ''}'' # t\<close> for t
    by (simp_all add: skip_ws_def is_ws_def)
  show ?thesis
    apply (subst parse_members.simps)
    apply (simp only: list.case simp_thms if_False if_True key2 option.case prod.case ws skip_ws_Itoa parse_value_Itoa unquote_names)
    apply (simp add: dq_def)
    done
qed


lemma parse_value_encoded_string:
  \<open>parse_value (Suc f) (encode_string s @ rest) = Some (JStr (unquote (encode_string_body s)), rest)\<close>
  using scan_encoded_string [of s rest]
  by (simp add: encode_string_def dq_def)

lemma skip_ws_encode_string: \<open>skip_ws (encode_string a @ t) = encode_string a @ t\<close>
  by (simp add: encode_string_def skip_ws_def is_ws_def dq_def)

lemma members_coggia:
  \<open>parse_members (Suc (Suc (Suc f)))
     (dq # ''address'' @ dq # CHR '':'' # encode_string a @
        CHR '','' # dq # ''balance'' @ dq # CHR '':'' # Itoa b @ ''}'') =
   Some ([(''address'', JStr (unquote (encode_string_body a))), (''balance'', JNum (Itoa b))], [])\<close>
proof -
  have key1: \<open>scan_string (''address'' @ dq # t) = Some (''address'', t)\<close> for t
    by (simp add: dq_def bsl_def byte_def)
  have ws: \<open>skip_ws (CHR '':'' # t) = CHR '':'' # t\<close> \<open>skip_ws (CHR '','' # t) = CHR '','' # t\<close>
    \<open>skip_ws (dq # t) = dq # t\<close> for t
    by (simp_all add: skip_ws_def is_ws_def dq_def)
  show ?thesis
    apply (subst parse_members.simps)
    apply (simp only: list.case simp_thms if_False if_True key1 option.case prod.case ws
        skip_ws_encode_string parse_value_encoded_string unquote_names member_balance option.map)
    done
qed

lemma json_parse_Marshal_coggia:
  \<open>json_parse (Marshal_coggia w) =
     Some (JObj [(''address'', JStr (unquote (encode_string_body (Address w)))),
                 (''balance'', JNum (Itoa (Balance w)))])\<close>
proof -
  let ?body = \<open>dq # ''address'' @ dq # CHR '':'' # encode_string (Address w) @
        CHR '','' # dq # ''balance'' @ dq # CHR '':'' # Itoa (Balance w) @ ''}''\<close>
  have m: \<open>Marshal_coggia w = CHR ''{'' # ?body\<close>
    by (simp add: Marshal_coggia_def dq_def)
  have \<open>2 * length (CHR ''{'' # ?body) + 2 = Suc (Suc (Suc (Suc (2 * length ?body))))\<close>
    by simp
  then obtain f where fuel: \<open>2 * length (CHR ''{'' # ?body) + 2 = Suc (Suc (Suc (Suc f)))\<close>
    by blast
  have ws: \<open>skip_ws (CHR ''{'' # t) = CHR ''{'' # t\<close> \<open>skip_ws (dq # t) = dq # t\<close>
    \<open>skip_ws [] = []\<close> for t
    by (simp_all add: skip_ws_def is_ws_def dq_def)
  have neq: \<open>dq \<noteq> CHR ''}''\<close>
    by (simp add: dq_def)
  have \<open>parse_value (Suc (Suc (Suc (Suc f)))) (CHR ''{'' # ?body) =
      Some (JObj [(''address'', JStr (unquote (encode_string_body (Address w)))),
                  (''balance'', JNum (Itoa (Balance w)))], [])\<close>
    apply (subst parse_value.simps)
    apply (simp only: list.case simp_thms if_False if_True ws neq members_coggia option.map prod.case)
    done
  then show ?thesis
    unfolding json_parse_def m fuel by (simp only: ws option.case prod.case if_True simp_thms)
qed

lemma fold_names: \<open>fold_name ''address'' = ''ADDRESS''\<close> \<open>fold_name ''balance'' = ''BALANCE''\<close>
  by code_simp+

lemma Unmarshal_Marshal_coggia:
  \<open>Unmarshal_coggia (Marshal_coggia w) =
     Inr \<lparr>Address = unquote (encode_string_body (Address w)), Balance = Balance w\<rparr>\<close>
  by (simp add: Unmarshal_coggia_def json_parse_Marshal_coggia fold_names ParseInt_Itoa
      del: fold_name.simps)

section \<open>Transfers: success\<close>

text \<open>
  What a successful transfer has done. In coggia.go both records existed and decoded,
  and the state is the old one with the two re-encoded wallets written under the two
  argument keys, the receiving one first. In the Halley contract both records existed
  and decoded, to the zero wallet as every record does there, and the two writes went to
  the key that is the \<^verbatim>\<open>id\<close> of the zero wallet: the empty string.
\<close>

lemma args_at_least_three:
  assumes \<open>\<not> length args < 3\<close>
  obtains a b c rest where \<open>args = a # b # c # rest\<close>
proof -
  from assms obtain a r1 where 1: \<open>args = a # r1\<close> by (cases args) auto
  with assms obtain b r2 where 2: \<open>r1 = b # r2\<close> by (cases r1) auto
  with 1 assms obtain c r3 where 3: \<open>r2 = c # r3\<close> by (cases r2) auto
  show thesis using 1 2 3 that by simp
qed

lemma transferFunds_coggia_success:
  assumes \<open>fst (transferFunds_coggia stub args) = Success p\<close>
  shows \<open>\<exists>fromId toId amount rest bf bt wf wt.
           args = fromId # toId # amount # rest \<and>
           map_of (kv stub) fromId = Some bf \<and> map_of (kv stub) toId = Some bt \<and>
           Unmarshal_coggia bf = Inr wf \<and> Unmarshal_coggia bt = Inr wt \<and>
           kv (snd (transferFunds_coggia stub args)) =
             AList.update fromId (Marshal_coggia (wf\<lparr>Balance := Balance wf - fst (Atoi amount)\<rparr>))
               (AList.update toId (Marshal_coggia (wt\<lparr>Balance := Balance wt + fst (Atoi amount)\<rparr>))
                  (kv stub))\<close>
proof -
  have len: \<open>\<not> length args < 3\<close>
    using assms by (auto simp: transferFunds_coggia_def)
  then obtain fromId toId amount rest where args: \<open>args = fromId # toId # amount # rest\<close>
    by (rule args_at_least_three)
  show ?thesis
    using assms unfolding args transferFunds_coggia_def Let_def
    by (auto simp: GetState_def PutState_def tick_def
        split: option.splits sum.splits)
qed

lemma Unmarshal_halley_zero:
  \<open>Unmarshal_halley d = Inr w \<Longrightarrow> w = \<lparr>wallet_id = [], balance = 0, owner = []\<rparr>\<close>
  by (auto simp: Unmarshal_halley_def split: option.splits json.splits)

lemma Unmarshal_halley_nil: \<open>Unmarshal_halley [] = Inl SyntaxError\<close>
  by code_simp

lemma Unmarshal_halley_empty_object:
  \<open>Unmarshal_halley ''{}'' = Inr \<lparr>wallet_id = [], balance = 0, owner = []\<rparr>\<close>
  by code_simp

lemma transferFunds_halley_success:
  assumes \<open>fst (transferFunds_halley stub args) = Success p\<close>
  shows \<open>\<exists>fromId toId amount rest bf bt.
           args = fromId # toId # amount # rest \<and>
           map_of (kv stub) fromId = Some bf \<and> map_of (kv stub) toId = Some bt \<and>
           Unmarshal_halley bf = Inr \<lparr>wallet_id = [], balance = 0, owner = []\<rparr> \<and>
           Unmarshal_halley bt = Inr \<lparr>wallet_id = [], balance = 0, owner = []\<rparr> \<and>
           kv (snd (transferFunds_halley stub args)) =
             AList.update [] ''{}'' (AList.update [] ''{}'' (kv stub))\<close>
proof -
  have len: \<open>\<not> length args < 3\<close>
    using assms by (auto simp: transferFunds_halley_def)
  then obtain fromId toId amount rest where args: \<open>args = fromId # toId # amount # rest\<close>
    by (rule args_at_least_three)
  have nil: \<open>nil_bytes None = []\<close> \<open>nil_bytes (Some b) = b\<close> for b
    by (simp_all add: nil_bytes_def)
  have \<open>\<exists>bf bt wf wt.
           map_of (kv stub) fromId = Some bf \<and> map_of (kv stub) toId = Some bt \<and>
           Unmarshal_halley bf = Inr wf \<and> Unmarshal_halley bt = Inr wt \<and>
           kv (snd (transferFunds_halley stub args)) =
             AList.update (wallet_id wt) ''{}'' (AList.update (wallet_id wf) ''{}'' (kv stub))\<close>
    using assms unfolding args transferFunds_halley_def Let_def
    by (auto simp: GetState_def PutState_def tick_def nil_bytes_def Unmarshal_halley_nil Marshal_halley_def
        split: option.splits sum.splits prod.splits)
  then obtain bf bt wf wt where *:
    \<open>map_of (kv stub) fromId = Some bf\<close> \<open>map_of (kv stub) toId = Some bt\<close>
    \<open>Unmarshal_halley bf = Inr wf\<close> \<open>Unmarshal_halley bt = Inr wt\<close>
    \<open>kv (snd (transferFunds_halley stub args)) =
       AList.update (wallet_id wt) ''{}'' (AList.update (wallet_id wf) ''{}'' (kv stub))\<close>
    by blast
  have z: \<open>wf = \<lparr>wallet_id = [], balance = 0, owner = []\<rparr>\<close> \<open>wt = \<lparr>wallet_id = [], balance = 0, owner = []\<rparr>\<close>
    using * Unmarshal_halley_zero by blast+
  show ?thesis
    using * args unfolding z by auto
qed

lemma balance_halley_zero: \<open>balance_halley s k = Some x \<Longrightarrow> x = 0\<close>
  by (auto simp: balance_halley_def split: option.splits sum.splits dest!: Unmarshal_halley_zero)

lemma sint_sum_mod:
  fixes x y x' y' :: go_int
  assumes \<open>x' + y' = x + y\<close>
  shows \<open>(sint x' + sint y') mod 2 ^ 64 = (sint x + sint y) mod 2 ^ 64\<close>
proof -
  have \<open>(word_of_int (sint x' + sint y') :: go_int) = word_of_int (sint x + sint y)\<close>
    using assms by simp
  then show ?thesis
    unfolding word_of_int_eq_iff take_bit_eq_mod by simp
qed

lemma sint_diff_in_range:
  fixes a n :: go_int
  assumes \<open>- (2 ^ 63) \<le> sint a - sint n\<close> \<open>sint a - sint n < 2 ^ 63\<close>
  shows \<open>sint (a - n) = sint a - sint n\<close>
  using assms by (simp add: sint_word_ariths signed_take_bit_int_eq_self)

lemma sint_sum_in_range:
  fixes b n :: go_int
  assumes \<open>- (2 ^ 63) \<le> sint b + sint n\<close> \<open>sint b + sint n < 2 ^ 63\<close>
  shows \<open>sint (b + n) = sint b + sint n\<close>
  using assms by (simp add: sint_word_ariths signed_take_bit_int_eq_self)

text \<open>
  C1, as stated: after a successful transfer between two distinct existing wallets the
  sum of the two balances equals the sum before. Go's \<^verbatim>\<open>int\<close> wraps, and nothing in
  \<open>transferFunds\<close> guards the subtraction or the addition. On the ledger where
  \<open>initWallet\<close> has left \<open>a\<close> with balance \<open>-9223372036854775807\<close> and \<open>b\<close>
  with balance 0, the transfer of 10 from \<open>a\<close> to \<open>b\<close> succeeds; the balance stored
  at \<open>a\<close> is then \<open>9223372036854775799\<close> and the one at \<open>b\<close> is 10, so the sum
  of the two signed balances went from \<open>-9223372036854775807\<close> to
  \<open>9223372036854775809\<close>.
\<close>

theorem transferFunds_sum_overflow:
  \<open>fst (transferFunds_coggia overflow_ledger [''a'', ''b'', ''10'']) = Success None \<and>
   balance_coggia overflow_ledger ''a'' = Some (- 9223372036854775807) \<and>
   balance_coggia overflow_ledger ''b'' = Some 0 \<and>
   balance_coggia (snd (transferFunds_coggia overflow_ledger [''a'', ''b'', ''10''])) ''a'' =
     Some 9223372036854775799 \<and>
   balance_coggia (snd (transferFunds_coggia overflow_ledger [''a'', ''b'', ''10''])) ''b'' = Some 10 \<and>
   sint (- 9223372036854775807 :: go_int) + sint (0 :: go_int) = - 9223372036854775807 \<and>
   sint (9223372036854775799 :: go_int) + sint (10 :: go_int) = 9223372036854775809\<close>
  by code_simp

text \<open>
  C1, amended. For every pair of distinct keys \<open>A\<close> and \<open>B\<close> and every amount, if
  \<open>transferFunds\<close> answers a success, then both wallets existed before and both exist
  after, balances being read from the stored records with the program's own decoder and
  taken as signed integers. In coggia.go, with \<open>n\<close> the value that \<open>Atoi\<close> returned
  for the amount, the balance at \<open>A\<close> is the old one minus \<open>n\<close> and the balance at
  \<open>B\<close> the old one plus \<open>n\<close>, both wrapped to 64 bits; the sum of the two balances
  after the transfer is congruent to the sum before modulo \<open>2 ^ 64\<close>, and it is equal
  to the sum before whenever neither the difference nor the sum leaves the range of a
  64-bit signed integer. In the Halley contract the sum after equals the sum before, for
  the decoder of that contract sets no field of a wallet: each of the four balances read
  from the store is 0.
\<close>

theorem transferFunds_sum_invariant:
  assumes \<open>A \<noteq> B\<close>
  shows \<open>(fst (transferFunds_coggia stub (A # B # amount # rest)) = Success p \<longrightarrow>
            (\<exists>a b. balance_coggia stub A = Some a \<and> balance_coggia stub B = Some b \<and>
               balance_coggia (snd (transferFunds_coggia stub (A # B # amount # rest))) A =
                 Some (a - fst (Atoi amount)) \<and>
               balance_coggia (snd (transferFunds_coggia stub (A # B # amount # rest))) B =
                 Some (b + fst (Atoi amount)) \<and>
               (sint (a - fst (Atoi amount)) + sint (b + fst (Atoi amount))) mod 2 ^ 64 =
                 (sint a + sint b) mod 2 ^ 64 \<and>
               (- (2 ^ 63) \<le> sint a - sint (fst (Atoi amount)) \<and>
                sint a - sint (fst (Atoi amount)) < 2 ^ 63 \<and>
                - (2 ^ 63) \<le> sint b + sint (fst (Atoi amount)) \<and>
                sint b + sint (fst (Atoi amount)) < 2 ^ 63 \<longrightarrow>
                  sint (a - fst (Atoi amount)) + sint (b + fst (Atoi amount)) = sint a + sint b))) \<and>
         (fst (transferFunds_halley stub (A # B # amount # rest)) = Success p \<longrightarrow>
            (\<exists>a b a' b'. balance_halley stub A = Some a \<and> balance_halley stub B = Some b \<and>
               balance_halley (snd (transferFunds_halley stub (A # B # amount # rest))) A = Some a' \<and>
               balance_halley (snd (transferFunds_halley stub (A # B # amount # rest))) B = Some b' \<and>
               sint a' + sint b' = sint a + sint b \<and>
               a = 0 \<and> b = 0 \<and> a' = 0 \<and> b' = 0))\<close>
proof (intro conjI impI)
  let ?n = \<open>fst (Atoi amount)\<close>
  assume ok: \<open>fst (transferFunds_coggia stub (A # B # amount # rest)) = Success p\<close>
  let ?s' = \<open>snd (transferFunds_coggia stub (A # B # amount # rest))\<close>
  obtain bf bt wf wt where *:
    \<open>map_of (kv stub) A = Some bf\<close> \<open>map_of (kv stub) B = Some bt\<close>
    \<open>Unmarshal_coggia bf = Inr wf\<close> \<open>Unmarshal_coggia bt = Inr wt\<close>
    \<open>kv ?s' = AList.update A (Marshal_coggia (wf\<lparr>Balance := Balance wf - ?n\<rparr>))
                (AList.update B (Marshal_coggia (wt\<lparr>Balance := Balance wt + ?n\<rparr>)) (kv stub))\<close>
    using transferFunds_coggia_success [OF ok] by auto
  let ?a = \<open>Balance wf\<close> and ?b = \<open>Balance wt\<close>
  have before: \<open>balance_coggia stub A = Some ?a\<close> \<open>balance_coggia stub B = Some ?b\<close>
    using * by (simp_all add: balance_coggia_def)
  have atA: \<open>map_of (kv ?s') A = Some (Marshal_coggia (wf\<lparr>Balance := ?a - ?n\<rparr>))\<close>
    by (simp add: *(5) update_conv')
  have atB: \<open>map_of (kv ?s') B = Some (Marshal_coggia (wt\<lparr>Balance := ?b + ?n\<rparr>))\<close>
    using assms by (simp add: *(5) update_conv')
  have after: \<open>balance_coggia ?s' A = Some (?a - ?n)\<close> \<open>balance_coggia ?s' B = Some (?b + ?n)\<close>
    by (simp_all add: balance_coggia_def atA atB Unmarshal_Marshal_coggia)
  have congruent: \<open>(sint (?a - ?n) + sint (?b + ?n)) mod 2 ^ 64 = (sint ?a + sint ?b) mod 2 ^ 64\<close>
    by (rule sint_sum_mod) simp
  have exact: \<open>sint (?a - ?n) + sint (?b + ?n) = sint ?a + sint ?b\<close>
    if \<open>- (2 ^ 63) \<le> sint ?a - sint ?n \<and> sint ?a - sint ?n < 2 ^ 63 \<and>
        - (2 ^ 63) \<le> sint ?b + sint ?n \<and> sint ?b + sint ?n < 2 ^ 63\<close>
  proof -
    have \<open>sint (?a - ?n) = sint ?a - sint ?n\<close>
      using that by (intro sint_diff_in_range) simp_all
    moreover have \<open>sint (?b + ?n) = sint ?b + sint ?n\<close>
      using that by (intro sint_sum_in_range) simp_all
    ultimately show ?thesis by simp
  qed
  show \<open>\<exists>a b. balance_coggia stub A = Some a \<and> balance_coggia stub B = Some b \<and>
      balance_coggia ?s' A = Some (a - ?n) \<and> balance_coggia ?s' B = Some (b + ?n) \<and>
      (sint (a - ?n) + sint (b + ?n)) mod 2 ^ 64 = (sint a + sint b) mod 2 ^ 64 \<and>
      (- (2 ^ 63) \<le> sint a - sint ?n \<and> sint a - sint ?n < 2 ^ 63 \<and>
       - (2 ^ 63) \<le> sint b + sint ?n \<and> sint b + sint ?n < 2 ^ 63 \<longrightarrow>
         sint (a - ?n) + sint (b + ?n) = sint a + sint b)\<close>
    using before after congruent exact by blast
next
  assume ok: \<open>fst (transferFunds_halley stub (A # B # amount # rest)) = Success p\<close>
  let ?s' = \<open>snd (transferFunds_halley stub (A # B # amount # rest))\<close>
  let ?z = \<open>\<lparr>wallet_id = [], balance = 0, owner = []\<rparr>\<close>
  obtain bf bt where *:
    \<open>map_of (kv stub) A = Some bf\<close> \<open>map_of (kv stub) B = Some bt\<close>
    \<open>Unmarshal_halley bf = Inr ?z\<close> \<open>Unmarshal_halley bt = Inr ?z\<close>
    \<open>kv ?s' = AList.update [] ''{}'' (AList.update [] ''{}'' (kv stub))\<close>
    using transferFunds_halley_success [OF ok] by auto
  have before: \<open>balance_halley stub A = Some 0\<close> \<open>balance_halley stub B = Some 0\<close>
    using * by (simp_all add: balance_halley_def)
  have after: \<open>balance_halley ?s' k = Some 0\<close> if \<open>balance_halley stub k = Some 0\<close> for k
    using that
    by (cases \<open>k = []\<close>) (simp_all add: balance_halley_def *(5) update_conv' Unmarshal_halley_empty_object)
  show \<open>\<exists>a b a' b'. balance_halley stub A = Some a \<and> balance_halley stub B = Some b \<and>
      balance_halley ?s' A = Some a' \<and> balance_halley ?s' B = Some b' \<and>
      sint a' + sint b' = sint a + sint b \<and> a = 0 \<and> b = 0 \<and> a' = 0 \<and> b' = 0\<close>
    using before after by simp
qed

theorem transferFunds_sum_invariant_witness:
  \<open>fst (transferFunds_coggia coggia_ledger [''a'', ''b'', ''30'']) = Success None \<and>
   balance_coggia coggia_ledger ''a'' = Some 100 \<and>
   balance_coggia coggia_ledger ''b'' = Some 5 \<and>
   balance_coggia (snd (transferFunds_coggia coggia_ledger [''a'', ''b'', ''30''])) ''a'' = Some 70 \<and>
   balance_coggia (snd (transferFunds_coggia coggia_ledger [''a'', ''b'', ''30''])) ''b'' = Some 35 \<and>
   sint (100 - 30 :: go_int) + sint (5 + 30 :: go_int) = sint (100 :: go_int) + sint (5 :: go_int) \<and>
   fst (transferFunds_halley halley_ledger [''w1'', ''w2'', ''30'']) = Success None \<and>
   balance_halley (snd (transferFunds_halley halley_ledger [''w1'', ''w2'', ''30''])) ''w1'' = Some 0 \<and>
   balance_halley (snd (transferFunds_halley halley_ledger [''w1'', ''w2'', ''30''])) ''w2'' = Some 0\<close>
proof -
  have ne: \<open>''a'' \<noteq> ''b''\<close> \<open>''w1'' \<noteq> ''w2''\<close>
    by simp_all
  have ok: \<open>fst (transferFunds_coggia coggia_ledger (''a'' # ''b'' # ''30'' # [])) = Success None\<close>
    by code_simp
  have okh: \<open>fst (transferFunds_halley halley_ledger (''w1'' # ''w2'' # ''30'' # [])) = Success None\<close>
    by code_simp
  have n: \<open>fst (Atoi ''30'') = 30\<close>
    by code_simp
  have b: \<open>balance_coggia coggia_ledger ''a'' = Some 100\<close> \<open>balance_coggia coggia_ledger ''b'' = Some 5\<close>
    by code_simp+
  have range: \<open>- (2 ^ 63) \<le> sint (100 :: go_int) - sint (30 :: go_int) \<and>
      sint (100 :: go_int) - sint (30 :: go_int) < 2 ^ 63 \<and>
      - (2 ^ 63) \<le> sint (5 :: go_int) + sint (30 :: go_int) \<and>
      sint (5 :: go_int) + sint (30 :: go_int) < 2 ^ 63\<close>
    by simp
  note t = transferFunds_sum_invariant [OF ne(1), of coggia_ledger \<open>''30''\<close> \<open>[]\<close> None]
  have c: \<open>balance_coggia (snd (transferFunds_coggia coggia_ledger (''a'' # ''b'' # ''30'' # []))) ''a'' = Some (100 - 30) \<and>
      balance_coggia (snd (transferFunds_coggia coggia_ledger (''a'' # ''b'' # ''30'' # []))) ''b'' = Some (5 + 30) \<and>
      sint (100 - 30 :: go_int) + sint (5 + 30 :: go_int) = sint (100 :: go_int) + sint (5 :: go_int)\<close>
    using t ok b range unfolding n by auto
  have h: \<open>balance_halley (snd (transferFunds_halley halley_ledger (''w1'' # ''w2'' # ''30'' # []))) ''w1'' = Some 0 \<and>
      balance_halley (snd (transferFunds_halley halley_ledger (''w1'' # ''w2'' # ''30'' # []))) ''w2'' = Some 0\<close>
    using transferFunds_sum_invariant [OF ne(2), of halley_ledger \<open>''30''\<close> \<open>[]\<close> None] okh
    by (auto dest: balance_halley_zero)
  show ?thesis
    using ok okh b c h by simp
qed

section \<open>Transfers: what is written\<close>

text \<open>
  In coggia.go a successful transfer changes the records at the two argument keys only,
  and each of the two becomes the encoding of the wallet that was decoded from it with
  nothing but the balance changed.
\<close>

lemma transferFunds_coggia_frame:
  assumes \<open>fst (transferFunds_coggia stub (fromId # toId # amount # rest)) = Success p\<close>
  shows \<open>(\<forall>k. k \<noteq> fromId \<and> k \<noteq> toId \<longrightarrow>
            map_of (kv (snd (transferFunds_coggia stub (fromId # toId # amount # rest)))) k =
              map_of (kv stub) k) \<and>
         (\<exists>bf bt wf wt.
            map_of (kv stub) fromId = Some bf \<and> Unmarshal_coggia bf = Inr wf \<and>
            map_of (kv stub) toId = Some bt \<and> Unmarshal_coggia bt = Inr wt \<and>
            map_of (kv (snd (transferFunds_coggia stub (fromId # toId # amount # rest)))) fromId =
              Some (Marshal_coggia (wf\<lparr>Balance := Balance wf - fst (Atoi amount)\<rparr>)) \<and>
            (toId \<noteq> fromId \<longrightarrow>
               map_of (kv (snd (transferFunds_coggia stub (fromId # toId # amount # rest)))) toId =
                 Some (Marshal_coggia (wt\<lparr>Balance := Balance wt + fst (Atoi amount)\<rparr>))))\<close>
  using transferFunds_coggia_success [OF assms]
  by (auto simp: update_conv')

text \<open>
  C6. A successful transfer should change no key but \<open>fromId\<close> and \<open>toId\<close>. The
  Halley contract writes the two records under \<^verbatim>\<open>from.id\<close> and \<^verbatim>\<open>to.id\<close>, which
  the decoder never sets: on the ledger holding \<open>w1\<close> and \<open>w2\<close> the transfer
  succeeds, the records at \<open>w1\<close> and \<open>w2\<close> are what they were, and a record has
  appeared at the empty key.
\<close>

theorem transferFunds_halley_writes_empty_key:
  \<open>fst (transferFunds_halley halley_ledger [''w1'', ''w2'', ''30'']) = Success None \<and>
   map_of (kv halley_ledger) [] = None \<and>
   kv (snd (transferFunds_halley halley_ledger [''w1'', ''w2'', ''30''])) =
     [(''w1'', ''{}''), (''w2'', ''{}''), ([], ''{}'')]\<close>
  by code_simp

end
